theory Spec2Isabelle
  imports Complex_Main
begin

section \<open>Responses\<close>

text \<open>
  \<^verbatim>\<open>utils/response.ts\<close>: \<^verbatim>\<open>sendSuccess(res, data, message, statusCode)\<close> and
  \<^verbatim>\<open>sendError(res, error, statusCode)\<close> write one JSON answer; \<^verbatim>\<open>HttpStatus\<close> is the
  table of status codes. A handler's answer is the value it sends.
\<close>

datatype HttpStatus =
  OK | CREATED | NO_CONTENT | BAD_REQUEST | UNAUTHORIZED | FORBIDDEN | NOT_FOUND
  | CONFLICT | INTERNAL_SERVER_ERROR

fun status_code :: "HttpStatus \<Rightarrow> nat" where
  "status_code OK = 200"
| "status_code CREATED = 201"
| "status_code NO_CONTENT = 204"
| "status_code BAD_REQUEST = 400"
| "status_code UNAUTHORIZED = 401"
| "status_code FORBIDDEN = 403"
| "status_code NOT_FOUND = 404"
| "status_code CONFLICT = 409"
| "status_code INTERNAL_SERVER_ERROR = 500"

datatype 'a response =
  sendSuccess 'a string HttpStatus
  | sendError string HttpStatus

fun is_error :: "'a response \<Rightarrow> bool" where
  "is_error (sendError msg st) = True"
| "is_error (sendSuccess d msg st) = False"

section \<open>Numbers\<close>

text \<open>
  A JavaScript number is an IEEE 754 double, and every arithmetic operation returns the
  double nearest to the exact result, ties going to the even significand. A finite
  double is modelled by the real it denotes. \<open>binary64\<close> rounds a real to the grid of the
  doubles: 53 significant bits in the binade of the value, and the fixed spacing
  \<open>2 powi (- 1074)\<close> below \<open>2 powi (- 1022)\<close>, where the doubles are subnormal and a
  result underflows to zero. \<open>quantum\<close> is the spacing of the grid at a value.
\<close>

definition rne :: "real \<Rightarrow> int" where
  "rne x =
     (if x - of_int \<lfloor>x\<rfloor> < 1 / 2 then \<lfloor>x\<rfloor>
      else if 1 / 2 < x - of_int \<lfloor>x\<rfloor> then \<lfloor>x\<rfloor> + 1
      else if even \<lfloor>x\<rfloor> then \<lfloor>x\<rfloor> else \<lfloor>x\<rfloor> + 1)"

definition binade :: "real \<Rightarrow> int" where
  "binade x = \<lfloor>log 2 \<bar>x\<bar>\<rfloor>"

definition quantum :: "real \<Rightarrow> real" where
  "quantum x = 2 powi (max (binade x) (- 1022) - 52)"

definition binary64 :: "real \<Rightarrow> real" where
  "binary64 x = (if x = 0 then 0 else of_int (rne (x / quantum x)) * quantum x)"

definition exact :: "real \<Rightarrow> real" where
  "exact x = x"

text \<open>
  The largest finite double is \<open>2 ^ 1024 - 2 ^ 971\<close>: an operation whose rounded result
  has magnitude \<open>2 ^ 1024\<close> or more returns \<^verbatim>\<open>Infinity\<close> or \<^verbatim>\<open>-Infinity\<close>. The result of
  an operation is a \<open>real option\<close>, \<open>None\<close> standing for the three values that are not
  finite numbers (\<^verbatim>\<open>Infinity\<close>, \<^verbatim>\<open>-Infinity\<close>, \<^verbatim>\<open>NaN\<close>). In the operations of the handler
  the other operand is always a finite number, so an operand that is not finite gives a
  result that is not finite (\<^verbatim>\<open>Infinity * 0\<close> and \<^verbatim>\<open>Infinity - Infinity\<close> are \<^verbatim>\<open>NaN\<close>), and
  so does a division by zero.
\<close>

definition js_number :: "real \<Rightarrow> real option" where
  "js_number x = (if \<bar>binary64 x\<bar> < 2 ^ 1024 then Some (binary64 x) else None)"

definition js_add :: "real option \<Rightarrow> real option \<Rightarrow> real option" where
  "js_add a b =
     (case (a, b) of
        (Some x, Some y) \<Rightarrow> js_number (x + y)
      | _ \<Rightarrow> None)"

definition js_mul :: "real option \<Rightarrow> real \<Rightarrow> real option" where
  "js_mul a w = (case a of Some x \<Rightarrow> js_number (x * w) | None \<Rightarrow> None)"

definition js_div :: "real option \<Rightarrow> real \<Rightarrow> real option" where
  "js_div a d =
     (case a of
        Some x \<Rightarrow> if d = 0 then None else js_number (x / d)
      | None \<Rightarrow> None)"

section \<open>Score totals in \<^verbatim>\<open>submitEvaluation\<close>\<close>

text \<open>
  \<^verbatim>\<open>evaluator.handler.ts\<close>, lines 147 to 163. The criteria table has an integer column
  \<^verbatim>\<open>weightage\<close>; a submitted score is a number. \<^verbatim>\<open>totalWeightage\<close> is a sum of
  integers, exact in doubles below \<open>2 ^ 53\<close>, and is kept as an integer.
\<close>

record EvaluationCriteria =
  c_id :: string
  c_weightage :: int

record score_input =
  criteriaId :: string
  score :: real

text \<open>
  The loop \<^verbatim>\<open>for (const score of scores)\<close> with its two accumulators
  \<^verbatim>\<open>totalScore\<close> and \<^verbatim>\<open>totalWeightage\<close>; \<^verbatim>\<open>criteria.find\<close> returns the first
  criterion with the id, or \<^verbatim>\<open>undefined\<close>. \<open>fl\<close> rounds the result of each
  multiplication, division and addition, so that the lines can be read in exact
  arithmetic (\<open>exact\<close>) and in the rounding of the doubles (\<open>binary64\<close>, which does not
  bound the results from above; the next subsection adds the overflow).
\<close>

fun score_loop ::
  "(real \<Rightarrow> real) \<Rightarrow> EvaluationCriteria list \<Rightarrow> score_input list \<Rightarrow> real \<times> int
     \<Rightarrow> real \<times> int" where
  "score_loop fl criteria [] acc = acc"
| "score_loop fl criteria (sc # rest) (totalScore, totalWeightage) =
     (case find (\<lambda>c. c_id c = criteriaId sc) criteria of
        Some criteriaItem \<Rightarrow>
          score_loop fl criteria rest
            (fl (totalScore
                 + fl (fl (score sc * real_of_int (c_weightage criteriaItem)) / 100)),
             totalWeightage + c_weightage criteriaItem)
      | None \<Rightarrow> score_loop fl criteria rest (totalScore, totalWeightage))"

definition computeTotalScore ::
  "(real \<Rightarrow> real) \<Rightarrow> EvaluationCriteria list \<Rightarrow> score_input list \<Rightarrow> real" where
  "computeTotalScore fl criteria scores =
     (case score_loop fl criteria scores (0, 0) of
        (totalScore, totalWeightage) \<Rightarrow>
          if totalWeightage > 0 \<and> totalWeightage \<noteq> 100
          then fl (fl (totalScore * 100) / real_of_int totalWeightage)
          else totalScore)"

subsection \<open>The same lines in the doubles of the program\<close>

text \<open>
  The loop and the rescaling once more, now with the operations of a JavaScript number,
  overflow included. \<open>score\<close> is the number that the parsed body carries, a finite
  double (a literal beyond the range of the doubles parses to \<^verbatim>\<open>Infinity\<close>, which the
  field does not hold); \<^verbatim>\<open>weightage\<close> and \<^verbatim>\<open>totalWeightage\<close> are integers. The total
  is \<open>None\<close> when it is not a finite number. \<^verbatim>\<open>submitEvaluation\<close> uses this total;
  \<open>computeTotalScore binary64\<close> agrees with it whenever it is finite.
\<close>

fun score_loop_js ::
  "EvaluationCriteria list \<Rightarrow> score_input list \<Rightarrow> real option \<times> int
     \<Rightarrow> real option \<times> int" where
  "score_loop_js criteria [] acc = acc"
| "score_loop_js criteria (sc # rest) (totalScore, totalWeightage) =
     (case find (\<lambda>c. c_id c = criteriaId sc) criteria of
        Some criteriaItem \<Rightarrow>
          score_loop_js criteria rest
            (js_add totalScore
               (js_div (js_mul (Some (score sc)) (real_of_int (c_weightage criteriaItem)))
                  100),
             totalWeightage + c_weightage criteriaItem)
      | None \<Rightarrow> score_loop_js criteria rest (totalScore, totalWeightage))"

definition computeTotalScore_js ::
  "EvaluationCriteria list \<Rightarrow> score_input list \<Rightarrow> real option" where
  "computeTotalScore_js criteria scores =
     (case score_loop_js criteria scores (Some 0, 0) of
        (totalScore, totalWeightage) \<Rightarrow>
          if totalWeightage > 0 \<and> totalWeightage \<noteq> 100
          then js_div (js_mul totalScore 100) (real_of_int totalWeightage)
          else totalScore)"

subsection \<open>The normalizer as the specification words it\<close>

text \<open>
  The weight table of the known criteria, the pairs that match one, the two sums over
  the matched pairs, and the total with its rescaling rule. The weighted sum adds the
  terms \<open>rawScore * weight / 100\<close> of the matched pairs in the order of the list, in the
  arithmetic \<open>fl\<close>.
\<close>

definition weight_table :: "EvaluationCriteria list \<Rightarrow> string \<Rightarrow> int option" where
  "weight_table criteria = map_of (map (\<lambda>c. (c_id c, c_weightage c)) criteria)"

definition matched :: "EvaluationCriteria list \<Rightarrow> score_input list \<Rightarrow> score_input list" where
  "matched criteria scores =
     filter (\<lambda>sc. weight_table criteria (criteriaId sc) \<noteq> None) scores"

definition weight_of :: "EvaluationCriteria list \<Rightarrow> score_input \<Rightarrow> int" where
  "weight_of criteria sc = the (weight_table criteria (criteriaId sc))"

definition add_term ::
  "(real \<Rightarrow> real) \<Rightarrow> EvaluationCriteria list \<Rightarrow> real \<Rightarrow> score_input \<Rightarrow> real" where
  "add_term fl criteria acc sc =
     fl (acc + fl (fl (score sc * real_of_int (weight_of criteria sc)) / 100))"

definition spec_weightedSum ::
  "(real \<Rightarrow> real) \<Rightarrow> EvaluationCriteria list \<Rightarrow> score_input list \<Rightarrow> real" where
  "spec_weightedSum fl criteria scores =
     foldl (add_term fl criteria) 0 (matched criteria scores)"

definition spec_totalWeight :: "EvaluationCriteria list \<Rightarrow> score_input list \<Rightarrow> int" where
  "spec_totalWeight criteria scores =
     sum_list (map (weight_of criteria) (matched criteria scores))"

definition spec_total ::
  "(real \<Rightarrow> real) \<Rightarrow> EvaluationCriteria list \<Rightarrow> score_input list \<Rightarrow> real" where
  "spec_total fl criteria scores =
     (if spec_totalWeight criteria scores = 0 \<or> spec_totalWeight criteria scores = 100
      then spec_weightedSum fl criteria scores
      else fl (fl (spec_weightedSum fl criteria scores * 100)
                 / real_of_int (spec_totalWeight criteria scores)))"

section \<open>The store\<close>

text \<open>
  The tables of \<^verbatim>\<open>prisma/migrations/20260201193134_init/migration.sql\<close> that the two
  handlers read and write, each a list of rows in insertion order. Timestamp columns
  and the surrogate keys of rows that nothing refers to (team members, mentors,
  representatives, score lines) are left out. Identifiers are strings, compared by
  equality.
\<close>

datatype Gender = Male | Female | Other

datatype MemberRole = TeamLeader | TeamMember | SchoolStudent

datatype UserRole = admin | coordinator | evaluator | participant | head

record User =
  u_id :: string
  u_name :: string
  u_email :: string
  u_password :: string
  u_role :: UserRole
  u_teamId :: "string option"

record Team =
  t_id :: string
  t_teamName :: string
  t_theme :: string

record TeamMemberRow =
  tm_teamId :: string
  tm_fullName :: string
  tm_email :: string
  tm_gender :: Gender
  tm_role :: MemberRole
  tm_isIeeeMember :: bool
  tm_ieeeNumber :: "string option"
  tm_schoolStandard :: "string option"

record FacultyMentor =
  fm_teamId :: string
  fm_name :: string
  fm_email :: string
  fm_facultyId :: string

record CommunityRepresentative =
  cr_teamId :: string
  cr_name :: string
  cr_email :: string
  cr_affiliation :: string

record Evaluation =
  e_id :: string
  e_submissionId :: string
  e_evaluatorId :: string
  e_totalScore :: real
  e_comments :: "string option"

record EvaluationScore =
  es_evaluationId :: string
  es_criteriaId :: string
  es_score :: real

record store =
  users :: "User list"
  teams :: "Team list"
  teamMembers :: "TeamMemberRow list"
  facultyMentors :: "FacultyMentor list"
  communityRepresentatives :: "CommunityRepresentative list"
  submissions :: "string list"
  evaluationCriteria :: "EvaluationCriteria list"
  evaluations :: "Evaluation list"
  evaluationScores :: "EvaluationScore list"

text \<open>
  What a store call throws: a Prisma error with its code (\<^verbatim>\<open>P2002\<close> unique constraint,
  \<^verbatim>\<open>P2003\<close> foreign key, \<^verbatim>\<open>P2025\<close> record not found), or an error without a code.
\<close>

datatype prisma_error = P2002 | P2003 | P2025 | Thrown

text \<open>
  \<^verbatim>\<open>prisma.$transaction(async (tx) => ...)\<close>: the callback's writes are committed when
  it returns and rolled back when it throws.
\<close>

definition prisma_transaction ::
  "(store \<Rightarrow> prisma_error + 'a \<times> store) \<Rightarrow> store \<Rightarrow> (prisma_error + 'a) \<times> store" where
  "prisma_transaction callback s =
     (case callback s of
        Inl err \<Rightarrow> (Inl err, s)
      | Inr (result, s') \<Rightarrow> (Inr result, s'))"

subsection \<open>Evaluation tables\<close>

text \<open>
  \<^verbatim>\<open>Evaluation\<close> has the primary key \<^verbatim>\<open>id\<close>, the unique index
  \<^verbatim>\<open>(submissionId, evaluatorId)\<close> and a foreign key to \<^verbatim>\<open>Submission\<close>;
  \<^verbatim>\<open>EvaluationScore\<close> has the unique index \<^verbatim>\<open>(evaluationId, criteriaId)\<close> and
  foreign keys to \<^verbatim>\<open>Evaluation\<close> and \<^verbatim>\<open>EvaluationCriteria\<close>.
\<close>

definition evaluation_findUnique :: "store \<Rightarrow> string \<Rightarrow> string \<Rightarrow> Evaluation option" where
  "evaluation_findUnique s sid uid =
     find (\<lambda>e. e_submissionId e = sid \<and> e_evaluatorId e = uid) (evaluations s)"

definition evaluationScore_deleteMany :: "store \<Rightarrow> string \<Rightarrow> store" where
  "evaluationScore_deleteMany s eid =
     s\<lparr>evaluationScores := filter (\<lambda>r. es_evaluationId r \<noteq> eid) (evaluationScores s)\<rparr>"

text \<open>
  \<^verbatim>\<open>update\<close> writes the fields given in \<^verbatim>\<open>data\<close>; a field that is \<^verbatim>\<open>undefined\<close>
  there (absent comments) keeps its stored value.
\<close>

definition update_fields :: "real \<Rightarrow> string option \<Rightarrow> Evaluation \<Rightarrow> Evaluation" where
  "update_fields totalScore comments e =
     e\<lparr>e_totalScore := totalScore,
       e_comments := (case comments of None \<Rightarrow> e_comments e | Some c \<Rightarrow> Some c)\<rparr>"

definition evaluation_update ::
  "store \<Rightarrow> string \<Rightarrow> real \<Rightarrow> string option \<Rightarrow> prisma_error + Evaluation \<times> store" where
  "evaluation_update s eid totalScore comments =
     (case find (\<lambda>e. e_id e = eid) (evaluations s) of
        None \<Rightarrow> Inl P2025
      | Some e \<Rightarrow>
          Inr (update_fields totalScore comments e,
               s\<lparr>evaluations :=
                    map (\<lambda>e'. if e_id e' = eid then update_fields totalScore comments e' else e')
                      (evaluations s)\<rparr>))"

definition evaluation_create ::
  "store \<Rightarrow> Evaluation \<Rightarrow> prisma_error + Evaluation \<times> store" where
  "evaluation_create s row =
     (if e_id row \<in> e_id ` set (evaluations s) then Inl P2002
      else if evaluation_findUnique s (e_submissionId row) (e_evaluatorId row) \<noteq> None
      then Inl P2002
      else if e_submissionId row \<notin> set (submissions s) then Inl P2003
      else Inr (row, s\<lparr>evaluations := evaluations s @ [row]\<rparr>))"

definition es_key :: "EvaluationScore \<Rightarrow> string \<times> string" where
  "es_key r = (es_evaluationId r, es_criteriaId r)"

definition evaluationScore_createMany ::
  "store \<Rightarrow> EvaluationScore list \<Rightarrow> prisma_error + store" where
  "evaluationScore_createMany s rows =
     (if \<not> distinct (map es_key rows)
         \<or> (\<exists>r \<in> set rows. es_key r \<in> es_key ` set (evaluationScores s))
      then Inl P2002
      else if \<exists>r \<in> set rows.
                es_evaluationId r \<notin> e_id ` set (evaluations s)
                \<or> es_criteriaId r \<notin> c_id ` set (evaluationCriteria s)
      then Inl P2003
      else Inr (s\<lparr>evaluationScores := evaluationScores s @ rows\<rparr>))"

section \<open>\<^verbatim>\<open>submitEvaluation\<close>\<close>

text \<open>
  \<^verbatim>\<open>evaluator.handler.ts\<close>, lines 133 to 223. \<^verbatim>\<open>req.user\<close> is set by the
  authentication middleware or absent; the body carries \<^verbatim>\<open>submissionId\<close>, \<^verbatim>\<open>scores\<close>
  (\<open>None\<close> when missing or not an array) and \<^verbatim>\<open>comments\<close>. The identifier that the
  store draws for a new \<^verbatim>\<open>Evaluation\<close> row is the parameter \<open>uuid\<close>.
\<close>

record request_user =
  userId :: string

record evaluation_body =
  body_submissionId :: "string option"
  body_scores :: "score_input list option"
  body_comments :: "string option"

definition score_row :: "string \<Rightarrow> score_input \<Rightarrow> EvaluationScore" where
  "score_row eid sc =
     \<lparr>es_evaluationId = eid, es_criteriaId = criteriaId sc, es_score = score sc\<rparr>"

text \<open>
  The callback of the transaction. The column \<^verbatim>\<open>totalScore\<close> holds finite numbers:
  when the total is not a finite number, the write of the evaluation row
  (\<^verbatim>\<open>update\<close> or \<^verbatim>\<open>create\<close>) throws, and the transaction rolls back.
\<close>

definition submitEvaluation_tx ::
  "string \<Rightarrow> string \<Rightarrow> string \<Rightarrow> score_input list \<Rightarrow> real option \<Rightarrow> string option
     \<Rightarrow> store \<Rightarrow> prisma_error + Evaluation \<times> store" where
  "submitEvaluation_tx uuid uid sid scs totalScore cmts s =
     (case
        (case evaluation_findUnique s sid uid of
           Some existingEvaluation \<Rightarrow>
             (case totalScore of
                None \<Rightarrow> Inl Thrown
              | Some finiteTotal \<Rightarrow>
                  evaluation_update
                    (evaluationScore_deleteMany s (e_id existingEvaluation))
                    (e_id existingEvaluation) finiteTotal cmts)
         | None \<Rightarrow>
             (case totalScore of
                None \<Rightarrow> Inl Thrown
              | Some finiteTotal \<Rightarrow>
                  evaluation_create s
                    \<lparr>e_id = uuid, e_submissionId = sid, e_evaluatorId = uid,
                     e_totalScore = finiteTotal, e_comments = cmts\<rparr>))
      of
        Inl err \<Rightarrow> Inl err
      | Inr (evaluationRecord, s1) \<Rightarrow>
          (case evaluationScore_createMany s1 (map (score_row (e_id evaluationRecord)) scs) of
             Inl err \<Rightarrow> Inl err
           | Inr s2 \<Rightarrow> Inr (evaluationRecord, s2)))"

definition submitEvaluation ::
  "string \<Rightarrow> store \<Rightarrow> request_user option \<Rightarrow> evaluation_body
     \<Rightarrow> Evaluation response \<times> store" where
  "submitEvaluation uuid s user body =
     (case user of
        None \<Rightarrow> (sendError ''User not authenticated'' UNAUTHORIZED, s)
      | Some u \<Rightarrow>
          (case (body_submissionId body, body_scores body) of
             (Some sid, Some scs) \<Rightarrow>
               if sid = [] then (sendError ''Invalid evaluation data'' BAD_REQUEST, s)
               else
                 (case prisma_transaction
                         (submitEvaluation_tx uuid (userId u) sid scs
                            (computeTotalScore_js (evaluationCriteria s) scs)
                            (body_comments body)) s of
                    (Inr evaluation, s') \<Rightarrow>
                      (sendSuccess evaluation ''Evaluation submitted successfully'' OK, s')
                  | (Inl err, s') \<Rightarrow>
                      (sendError ''Failed to submit evaluation'' INTERNAL_SERVER_ERROR, s'))
           | _ \<Rightarrow> (sendError ''Invalid evaluation data'' BAD_REQUEST, s)))"

text \<open>
  The constraints of the evaluation tables as a predicate on a store: the primary key
  and the unique pair of \<^verbatim>\<open>Evaluation\<close>, and the foreign key from a score line to its
  evaluation.
\<close>

definition evaluation_integrity :: "store \<Rightarrow> bool" where
  "evaluation_integrity s \<longleftrightarrow>
     distinct (map e_id (evaluations s))
     \<and> distinct (map (\<lambda>e. (e_submissionId e, e_evaluatorId e)) (evaluations s))
     \<and> (\<forall>r \<in> set (evaluationScores s). es_evaluationId r \<in> e_id ` set (evaluations s))"

definition evaluations_of :: "store \<Rightarrow> string \<Rightarrow> string \<Rightarrow> Evaluation list" where
  "evaluations_of s sid uid =
     filter (\<lambda>e. e_submissionId e = sid \<and> e_evaluatorId e = uid) (evaluations s)"

definition scores_of :: "store \<Rightarrow> string \<Rightarrow> EvaluationScore list" where
  "scores_of s eid = filter (\<lambda>r. es_evaluationId r = eid) (evaluationScores s)"

section \<open>\<^verbatim>\<open>registerTeam\<close>\<close>

subsection \<open>The request\<close>

text \<open>
  \<^verbatim>\<open>participant.handler.ts\<close>, lines 7 to 31. The interface declares
  \<^verbatim>\<open>isIeeeMember\<close> a boolean, and line 126 compares it with the string \<^verbatim>\<open>"Yes"\<close>:
  the body is parsed JSON, so the field carries whatever was sent. Absent optional
  strings are \<open>None\<close>.
\<close>

datatype js_value = JUndefined | JBool bool | JString string

fun truthy :: "js_value \<Rightarrow> bool" where
  "truthy JUndefined = False"
| "truthy (JBool b) = b"
| "truthy (JString str) = (str \<noteq> [])"

fun present :: "string option \<Rightarrow> bool" where
  "present None = False"
| "present (Some str) = (str \<noteq> [])"

record TeamMemberInput =
  fullName :: string
  email :: string
  gender :: Gender
  role :: MemberRole
  isIeeeMember :: js_value
  ieeeNumber :: "string option"
  schoolStandard :: "string option"

record FacultyMentorInput =
  mentor_name :: string
  mentor_email :: string
  mentor_facultyId :: string

record CommunityRepresentativeInput =
  rep_name :: string
  rep_email :: string
  rep_affiliation :: string

record RegisterTeamInput =
  teamName :: string
  theme :: string
  members :: "TeamMemberInput list"
  facultyMentor :: FacultyMentorInput
  communityRepresentative :: CommunityRepresentativeInput

subsection \<open>Composition checks\<close>

text \<open>
  Lines 40 to 99. The loop \<^verbatim>\<open>for (const member of body.members)\<close> keeps three
  counters and answers at once, from inside the loop, when a Team Leader has no IEEE
  membership or a School Student no school standard; \<open>Inl\<close> is that early answer.
\<close>

definition leader_not_ieee :: "string \<times> HttpStatus" where
  "leader_not_ieee =
     (''Team Leader must be an IEEE member with valid membership number'', BAD_REQUEST)"

definition school_standard_missing :: "string \<times> HttpStatus" where
  "school_standard_missing =
     (''School Student must have a valid school standard (6th-9th)'', BAD_REQUEST)"

definition wrong_roster_size :: "string \<times> HttpStatus" where
  "wrong_roster_size = (''Team must have exactly 6 members'', BAD_REQUEST)"

definition leader_count_invalid :: "string \<times> HttpStatus" where
  "leader_count_invalid = (''Team must have exactly one Team Leader'', BAD_REQUEST)"

definition school_student_count_invalid :: "string \<times> HttpStatus" where
  "school_student_count_invalid =
     (''Team must have at least one School Student (6th-9th standard)'', BAD_REQUEST)"

definition no_female_member :: "string \<times> HttpStatus" where
  "no_female_member = (''Team must have at least one female member'', BAD_REQUEST)"

fun member_loop ::
  "TeamMemberInput list \<Rightarrow> nat \<times> nat \<times> nat \<Rightarrow> string \<times> HttpStatus + nat \<times> nat \<times> nat" where
  "member_loop [] counts = Inr counts"
| "member_loop (member # rest) (teamLeaderCount, schoolStudentCount, femaleCount) =
     (if role member = TeamLeader
         \<and> (\<not> truthy (isIeeeMember member) \<or> \<not> present (ieeeNumber member))
      then Inl leader_not_ieee
      else if role member = SchoolStudent \<and> \<not> present (schoolStandard member)
      then Inl school_standard_missing
      else member_loop rest
             (if role member = TeamLeader then teamLeaderCount + 1 else teamLeaderCount,
              if role member = SchoolStudent then schoolStudentCount + 1
              else schoolStudentCount,
              if gender member = Female then femaleCount + 1 else femaleCount))"

definition registerTeam_validate :: "TeamMemberInput list \<Rightarrow> (string \<times> HttpStatus) option" where
  "registerTeam_validate ms =
     (if length ms \<noteq> 6 then Some wrong_roster_size
      else
        (case member_loop ms (0, 0, 0) of
           Inl answer \<Rightarrow> Some answer
         | Inr (teamLeaderCount, schoolStudentCount, femaleCount) \<Rightarrow>
             if teamLeaderCount \<noteq> 1 then Some leader_count_invalid
             else if schoolStudentCount = 0 then Some school_student_count_invalid
             else if femaleCount = 0 then Some no_female_member
             else None))"

subsection \<open>Composition checks of the handler with uploads\<close>

text \<open>
  The second \<^verbatim>\<open>registerTeam\<close> (the one that uploads school identity documents,
  lines 334 to 453 of its file) checks the size, uploads, and then runs the loop with
  the slot index, asking every School Student for the uploaded document
  \<^verbatim>\<open>cloudinaryUrls[`schoolIdPdf_${i}`]\<close> as well. The upload result is an input here:
  \<open>None\<close> when an upload failed, else the map from slot index to URL. Only the verdict
  is modelled, not the persistence that follows it.
\<close>

definition upload_failed :: "string \<times> HttpStatus" where
  "upload_failed = (''Failed to upload files'', INTERNAL_SERVER_ERROR)"

definition school_standard_missing_upload :: "string \<times> HttpStatus" where
  "school_standard_missing_upload =
     (''School Student must have a valid school standard (7th-9th)'', BAD_REQUEST)"

definition school_id_pdf_required :: "string \<times> HttpStatus" where
  "school_id_pdf_required = (''School ID PDF is required for School Student'', BAD_REQUEST)"

definition school_student_count_invalid_upload :: "string \<times> HttpStatus" where
  "school_student_count_invalid_upload =
     (''Team must have exactly one School Student'', BAD_REQUEST)"

fun member_loop_upload ::
  "(nat \<Rightarrow> string option) \<Rightarrow> nat \<Rightarrow> TeamMemberInput list \<Rightarrow> nat \<times> nat \<times> nat
     \<Rightarrow> string \<times> HttpStatus + nat \<times> nat \<times> nat" where
  "member_loop_upload cloudinaryUrls i [] counts = Inr counts"
| "member_loop_upload cloudinaryUrls i (member # rest)
     (teamLeaderCount, schoolStudentCount, femaleCount) =
     (if role member = TeamLeader
         \<and> (\<not> truthy (isIeeeMember member) \<or> \<not> present (ieeeNumber member))
      then Inl leader_not_ieee
      else if role member = SchoolStudent \<and> \<not> present (schoolStandard member)
      then Inl school_standard_missing_upload
      else if role member = SchoolStudent \<and> \<not> present (cloudinaryUrls i)
      then Inl school_id_pdf_required
      else member_loop_upload cloudinaryUrls (i + 1) rest
             (if role member = TeamLeader then teamLeaderCount + 1 else teamLeaderCount,
              if role member = SchoolStudent then schoolStudentCount + 1
              else schoolStudentCount,
              if gender member = Female then femaleCount + 1 else femaleCount))"

definition registerTeam_upload_validate ::
  "(nat \<Rightarrow> string option) option \<Rightarrow> TeamMemberInput list \<Rightarrow> (string \<times> HttpStatus) option" where
  "registerTeam_upload_validate uploads ms =
     (if length ms \<noteq> 6 then Some wrong_roster_size
      else
        (case uploads of
           None \<Rightarrow> Some upload_failed
         | Some cloudinaryUrls \<Rightarrow>
             (case member_loop_upload cloudinaryUrls 0 ms (0, 0, 0) of
                Inl answer \<Rightarrow> Some answer
              | Inr (teamLeaderCount, schoolStudentCount, femaleCount) \<Rightarrow>
                  if teamLeaderCount \<noteq> 1 then Some leader_count_invalid
                  else if schoolStudentCount \<noteq> 1
                  then Some school_student_count_invalid_upload
                  else if femaleCount = 0 then Some no_female_member
                  else None)))"

subsection \<open>Team and user tables\<close>

text \<open>
  \<^verbatim>\<open>Team\<close> has the primary key \<^verbatim>\<open>id\<close> and the unique index \<^verbatim>\<open>teamName\<close>;
  \<^verbatim>\<open>FacultyMentor\<close> and \<^verbatim>\<open>CommunityRepresentative\<close> each a unique index
  \<^verbatim>\<open>teamId\<close>; \<^verbatim>\<open>User\<close> the primary key \<^verbatim>\<open>id\<close>, the unique index \<^verbatim>\<open>email\<close>
  and a foreign key \<^verbatim>\<open>teamId\<close> to \<^verbatim>\<open>Team\<close>.
\<close>

definition team_findUnique :: "store \<Rightarrow> string \<Rightarrow> Team option" where
  "team_findUnique s nm = find (\<lambda>t. t_teamName t = nm) (teams s)"

text \<open>The callback of \<^verbatim>\<open>body.members.map\<close>, lines 121 to 129.\<close>

definition member_row :: "string \<Rightarrow> TeamMemberInput \<Rightarrow> TeamMemberRow" where
  "member_row tid member =
     \<lparr>tm_teamId = tid,
      tm_fullName = fullName member,
      tm_email = email member,
      tm_gender = gender member,
      tm_role = role member,
      tm_isIeeeMember = (if isIeeeMember member = JString ''Yes'' then True else False),
      tm_ieeeNumber = ieeeNumber member,
      tm_schoolStandard = schoolStandard member\<rparr>"

definition mentor_row :: "string \<Rightarrow> FacultyMentorInput \<Rightarrow> FacultyMentor" where
  "mentor_row tid m =
     \<lparr>fm_teamId = tid, fm_name = mentor_name m, fm_email = mentor_email m,
      fm_facultyId = mentor_facultyId m\<rparr>"

definition representative_row ::
  "string \<Rightarrow> CommunityRepresentativeInput \<Rightarrow> CommunityRepresentative" where
  "representative_row tid r =
     \<lparr>cr_teamId = tid, cr_name = rep_name r, cr_email = rep_email r,
      cr_affiliation = rep_affiliation r\<rparr>"

text \<open>
  \<^verbatim>\<open>tx.team.create\<close> with its nested creates, lines 116 to 151: one statement that
  inserts the team, its members, the mentor and the representative, or throws.
\<close>

definition team_create ::
  "string \<Rightarrow> store \<Rightarrow> RegisterTeamInput \<Rightarrow> prisma_error + Team \<times> store" where
  "team_create tid s body =
     (if tid \<in> t_id ` set (teams s) then Inl P2002
      else if team_findUnique s (teamName body) \<noteq> None then Inl P2002
      else if tid \<in> fm_teamId ` set (facultyMentors s) then Inl P2002
      else if tid \<in> cr_teamId ` set (communityRepresentatives s) then Inl P2002
      else
        Inr (\<lparr>t_id = tid, t_teamName = teamName body, t_theme = theme body\<rparr>,
             s\<lparr>teams := teams s @ [\<lparr>t_id = tid, t_teamName = teamName body, t_theme = theme body\<rparr>],
               teamMembers := teamMembers s @ map (member_row tid) (members body),
               facultyMentors := facultyMentors s @ [mentor_row tid (facultyMentor body)],
               communityRepresentatives :=
                 communityRepresentatives s
                   @ [representative_row tid (communityRepresentative body)]\<rparr>))"

definition user_create :: "store \<Rightarrow> User \<Rightarrow> prisma_error + store" where
  "user_create s row =
     (if u_id row \<in> u_id ` set (users s) then Inl P2002
      else if u_email row \<in> u_email ` set (users s) then Inl P2002
      else if (case u_teamId row of None \<Rightarrow> False | Some tid \<Rightarrow> tid \<notin> t_id ` set (teams s))
      then Inl P2003
      else Inr (s\<lparr>users := users s @ [row]\<rparr>))"

subsection \<open>The handler\<close>

text \<open>
  Lines 101 to 187. \<^verbatim>\<open>hashPassword\<close> (\<^verbatim>\<open>utils/password\<close>) is a parameter, \<open>None\<close>
  when it rejects; \<open>tid\<close> and \<open>uid\<close> are the identifiers the store draws for the new
  team and the new user. The lookup of the team name runs before the transaction and
  outside it: \<open>others\<close> is what other requests commit between the two, the identity
  when the request runs alone.
\<close>

definition leader_account :: "string \<Rightarrow> string \<Rightarrow> string \<Rightarrow> TeamMemberInput \<Rightarrow> User" where
  "leader_account uid tid hashedPassword teamLeader =
     \<lparr>u_id = uid, u_name = fullName teamLeader, u_email = email teamLeader,
      u_password = hashedPassword, u_role = participant, u_teamId = Some tid\<rparr>"

definition registerTeam_tx ::
  "(string \<Rightarrow> string option) \<Rightarrow> string \<Rightarrow> string \<Rightarrow> RegisterTeamInput \<Rightarrow> store
     \<Rightarrow> prisma_error + Team \<times> store" where
  "registerTeam_tx hashPassword tid uid body s =
     (case team_create tid s body of
        Inl err \<Rightarrow> Inl err
      | Inr (newTeam, s1) \<Rightarrow>
          (case find (\<lambda>m. role m = TeamLeader) (members body) of
             None \<Rightarrow> Inr (newTeam, s1)
           | Some teamLeader \<Rightarrow>
               (case hashPassword ''qwert123'' of
                  None \<Rightarrow> Inl Thrown
                | Some hashedPassword \<Rightarrow>
                    (case user_create s1
                            (leader_account uid (t_id newTeam) hashedPassword teamLeader) of
                       Inl err \<Rightarrow> Inl err
                     | Inr s2 \<Rightarrow> Inr (newTeam, s2)))))"

definition team_name_taken :: "string \<times> HttpStatus" where
  "team_name_taken = (''Team name already exists'', CONFLICT)"

definition registerTeam_interleaved ::
  "(string \<Rightarrow> string option) \<Rightarrow> string \<Rightarrow> string \<Rightarrow> (store \<Rightarrow> store) \<Rightarrow> store
     \<Rightarrow> RegisterTeamInput \<Rightarrow> (string \<times> string) response \<times> store" where
  "registerTeam_interleaved hashPassword tid uid others s body =
     (case registerTeam_validate (members body) of
        Some (msg, st) \<Rightarrow> (sendError msg st, s)
      | None \<Rightarrow>
          (case team_findUnique s (teamName body) of
             Some existingTeam \<Rightarrow> (sendError (fst team_name_taken) (snd team_name_taken), s)
           | None \<Rightarrow>
               (case prisma_transaction (registerTeam_tx hashPassword tid uid body) (others s) of
                  (Inr team, s') \<Rightarrow>
                    (sendSuccess (t_id team, t_teamName team)
                       ''Team registered successfully'' CREATED, s')
                | (Inl err, s') \<Rightarrow>
                    if err = P2002
                    then (sendError (fst team_name_taken) (snd team_name_taken), s')
                    else (sendError ''Failed to register team'' INTERNAL_SERVER_ERROR, s'))))"

definition registerTeam ::
  "(string \<Rightarrow> string option) \<Rightarrow> string \<Rightarrow> string \<Rightarrow> store \<Rightarrow> RegisterTeamInput
     \<Rightarrow> (string \<times> string) response \<times> store" where
  "registerTeam hashPassword tid uid s body =
     registerTeam_interleaved hashPassword tid uid (\<lambda>s. s) s body"

section \<open>Vocabulary of the properties\<close>

text \<open>
  The two answers that the loop gives from inside, as predicates on one member, and the
  three counts it keeps.
\<close>

definition leader_bad :: "TeamMemberInput \<Rightarrow> bool" where
  "leader_bad m \<longleftrightarrow>
     role m = TeamLeader \<and> (\<not> truthy (isIeeeMember m) \<or> \<not> present (ieeeNumber m))"

definition school_bad :: "TeamMemberInput \<Rightarrow> bool" where
  "school_bad m \<longleftrightarrow> role m = SchoolStudent \<and> \<not> present (schoolStandard m)"

definition member_bad :: "TeamMemberInput \<Rightarrow> bool" where
  "member_bad m \<longleftrightarrow> leader_bad m \<or> school_bad m"

definition member_answer :: "TeamMemberInput \<Rightarrow> string \<times> HttpStatus" where
  "member_answer m = (if leader_bad m then leader_not_ieee else school_standard_missing)"

definition count_role :: "MemberRole \<Rightarrow> TeamMemberInput list \<Rightarrow> nat" where
  "count_role r ms = length (filter (\<lambda>m. role m = r) ms)"

definition count_female :: "TeamMemberInput list \<Rightarrow> nat" where
  "count_female ms = length (filter (\<lambda>m. gender m = Female) ms)"

text \<open>
  The store after a registration went through: the team \<open>tid\<close> with its roster, mentor
  and representative, and the account \<open>uid\<close> of the leader \<open>l\<close> with the hash \<open>h\<close>.
\<close>

definition registered ::
  "string \<Rightarrow> string \<Rightarrow> string \<Rightarrow> RegisterTeamInput \<Rightarrow> TeamMemberInput \<Rightarrow> store \<Rightarrow> store" where
  "registered tid uid h body l s =
     s\<lparr>users := users s @ [leader_account uid tid h l],
       teams := teams s @ [\<lparr>t_id = tid, t_teamName = teamName body, t_theme = theme body\<rparr>],
       teamMembers := teamMembers s @ map (member_row tid) (members body),
       facultyMentors := facultyMentors s @ [mentor_row tid (facultyMentor body)],
       communityRepresentatives :=
         communityRepresentatives s @ [representative_row tid (communityRepresentative body)]\<rparr>"

text \<open>
  The store after the transaction went through the update branch for the evaluation
  \<open>eid\<close>, and after it went through the create branch with the new row.
\<close>

definition replaced :: "string \<Rightarrow> real \<Rightarrow> string option \<Rightarrow> score_input list \<Rightarrow> store \<Rightarrow> store" where
  "replaced eid t c scs s =
     s\<lparr>evaluations :=
          map (\<lambda>e'. if e_id e' = eid then update_fields t c e' else e') (evaluations s),
       evaluationScores :=
          filter (\<lambda>r. es_evaluationId r \<noteq> eid) (evaluationScores s)
            @ map (score_row eid) scs\<rparr>"

definition created :: "Evaluation \<Rightarrow> score_input list \<Rightarrow> store \<Rightarrow> store" where
  "created row scs s =
     s\<lparr>evaluations := evaluations s @ [row],
       evaluationScores := evaluationScores s @ map (score_row (e_id row)) scs\<rparr>"

section \<open>Example data\<close>

text \<open>
  Concrete inputs at which the properties below are evaluated: the criteria weights 60
  and 40 of the specification's scenario B, a roster shaped like the one of its
  scenario A, and variations of both.
\<close>

definition example_hash :: "string \<Rightarrow> string option" where
  "example_hash pw = Some (''hash of '' @ pw)"

definition failing_hash :: "string \<Rightarrow> string option" where
  "failing_hash pw = None"

definition criteria_AB :: "EvaluationCriteria list" where
  "criteria_AB = [\<lparr>c_id = ''A'', c_weightage = 60\<rparr>, \<lparr>c_id = ''B'', c_weightage = 40\<rparr>]"

definition criteria_half :: "EvaluationCriteria list" where
  "criteria_half = [\<lparr>c_id = ''A'', c_weightage = 30\<rparr>, \<lparr>c_id = ''B'', c_weightage = 20\<rparr>]"

definition criteria_negative :: "EvaluationCriteria list" where
  "criteria_negative = [\<lparr>c_id = ''A'', c_weightage = - 50\<rparr>]"

definition scores_AB :: "score_input list" where
  "scores_AB = [\<lparr>criteriaId = ''A'', score = 80\<rparr>, \<lparr>criteriaId = ''B'', score = 70\<rparr>]"

definition scores_A :: "score_input list" where
  "scores_A = [\<lparr>criteriaId = ''A'', score = 10\<rparr>]"

definition scores_1_8 :: "score_input list" where
  "scores_1_8 = [\<lparr>criteriaId = ''A'', score = 1\<rparr>, \<lparr>criteriaId = ''B'', score = 8\<rparr>]"

definition criteria_quarter :: "EvaluationCriteria list" where
  "criteria_quarter = [\<lparr>c_id = ''A'', c_weightage = 25\<rparr>, \<lparr>c_id = ''B'', c_weightage = 25\<rparr>]"

definition scores_huge :: "score_input list" where
  "scores_huge =
     [\<lparr>criteriaId = ''A'', score = 2 ^ 1019\<rparr>, \<lparr>criteriaId = ''B'', score = 2 ^ 1019\<rparr>]"

definition scores_gone :: "score_input list" where
  "scores_gone = [\<lparr>criteriaId = ''A'', score = 80\<rparr>, \<lparr>criteriaId = ''gone'', score = 50\<rparr>]"

definition empty_store :: store where
  "empty_store =
     \<lparr>users = [], teams = [], teamMembers = [], facultyMentors = [],
      communityRepresentatives = [], submissions = [], evaluationCriteria = [],
      evaluations = [], evaluationScores = []\<rparr>"

definition evaluation_store :: store where
  "evaluation_store = empty_store\<lparr>submissions := [''sub1''], evaluationCriteria := criteria_AB\<rparr>"

definition evaluator1 :: request_user where
  "evaluator1 = \<lparr>userId = ''ev1''\<rparr>"

definition body_AB :: evaluation_body where
  "body_AB =
     \<lparr>body_submissionId = Some ''sub1'', body_scores = Some scores_AB, body_comments = None\<rparr>"

definition body_huge :: evaluation_body where
  "body_huge =
     \<lparr>body_submissionId = Some ''sub1'', body_scores = Some scores_huge, body_comments = None\<rparr>"

definition body_gone :: evaluation_body where
  "body_gone =
     \<lparr>body_submissionId = Some ''sub1'', body_scores = Some scores_gone, body_comments = None\<rparr>"

definition member_of :: "string \<Rightarrow> Gender \<Rightarrow> MemberRole \<Rightarrow> TeamMemberInput" where
  "member_of n g r =
     \<lparr>fullName = n, email = n @ ''@example.org'', gender = g, role = r,
      isIeeeMember = JUndefined, ieeeNumber = None, schoolStandard = None\<rparr>"

definition leader_yes :: TeamMemberInput where
  "leader_yes =
     (member_of ''Asha'' Female TeamLeader)
       \<lparr>isIeeeMember := JString ''Yes'', ieeeNumber := Some ''IEEE123''\<rparr>"

definition leader_true :: TeamMemberInput where
  "leader_true =
     (member_of ''Asha'' Female TeamLeader)
       \<lparr>isIeeeMember := JBool True, ieeeNumber := Some ''IEEE123''\<rparr>"

definition leader_no_number :: TeamMemberInput where
  "leader_no_number = member_of ''Lee'' Male TeamLeader"

definition student :: TeamMemberInput where
  "student = (member_of ''Sam'' Male SchoolStudent)\<lparr>schoolStandard := Some ''8th''\<rparr>"

definition student_no_standard :: TeamMemberInput where
  "student_no_standard = member_of ''Sid'' Male SchoolStudent"

definition others4 :: "TeamMemberInput list" where
  "others4 =
     [member_of ''Bo'' Male TeamMember, member_of ''Cy'' Other TeamMember,
      member_of ''Di'' Female TeamMember, member_of ''Ed'' Male TeamMember]"

definition roster_A :: "TeamMemberInput list" where
  "roster_A = leader_yes # student # others4"

definition roster_true :: "TeamMemberInput list" where
  "roster_true = leader_true # student # others4"

definition roster_two_students :: "TeamMemberInput list" where
  "roster_two_students = leader_yes # student # student # tl others4"

definition roster_student_first :: "TeamMemberInput list" where
  "roster_student_first = student_no_standard # leader_no_number # others4"

definition roster_five :: "TeamMemberInput list" where
  "roster_five = leader_yes # student # tl others4"

definition body_of :: "TeamMemberInput list \<Rightarrow> RegisterTeamInput" where
  "body_of ms =
     \<lparr>teamName = ''Falcons'', theme = ''Health'', members = ms,
      facultyMentor =
        \<lparr>mentor_name = ''Dr Rao'', mentor_email = ''rao@example.org'', mentor_facultyId = ''F1''\<rparr>,
      communityRepresentative =
        \<lparr>rep_name = ''Mina'', rep_email = ''mina@example.org'', rep_affiliation = ''NGO''\<rparr>\<rparr>"

definition falcons :: Team where
  "falcons = \<lparr>t_id = ''t0'', t_teamName = ''Falcons'', t_theme = ''Energy''\<rparr>"

definition falcons_store :: store where
  "falcons_store = empty_store\<lparr>teams := [falcons]\<rparr>"

definition rival :: "store \<Rightarrow> store" where
  "rival s = s\<lparr>teams := teams s @ [falcons]\<rparr>"

definition all_uploaded :: "nat \<Rightarrow> string option" where
  "all_uploaded i = Some ''https://files.example.org/id.pdf''"

section \<open>Properties of the rounding\<close>

lemma rne_error: "\<bar>of_int (rne x) - x\<bar> \<le> 1 / 2"
proof -
  define r where "r = x - of_int \<lfloor>x\<rfloor>"
  have r: "0 \<le> r" "r < 1"
    unfolding r_def by linarith+
  consider "r < 1 / 2" | "1 / 2 < r" | "r = 1 / 2"
    by linarith
  then show ?thesis
  proof cases
    case 1
    then have "of_int (rne x) - x = - r" by (simp add: rne_def r_def)
    with 1 r show ?thesis by linarith
  next
    case 2
    then have "of_int (rne x) - x = 1 - r" by (simp add: rne_def r_def)
    with 2 r show ?thesis by linarith
  next
    case 3
    then have "of_int (rne x) - x = - r \<or> of_int (rne x) - x = 1 - r"
      by (simp add: rne_def r_def)
    with 3 show ?thesis by auto
  qed
qed

lemma rne_of_int [simp]: "rne (of_int n) = n"
  by (simp add: rne_def)

lemma rne_near:
  assumes "\<bar>x - of_int m\<bar> < 1 / 2"
  shows "rne x = m"
proof (cases "of_int m \<le> x")
  case True
  with assms have "\<lfloor>x\<rfloor> = m" by (intro floor_unique) (auto simp: abs_if)
  with assms True show ?thesis by (simp add: rne_def abs_if)
next
  case False
  with assms have f: "\<lfloor>x\<rfloor> = m - 1" by (intro floor_unique) (auto simp: abs_if split: if_splits)
  with assms False show ?thesis by (auto simp: rne_def abs_if split: if_splits)
qed

lemma binade_unique:
  assumes "2 powi e \<le> \<bar>x\<bar>" "\<bar>x\<bar> < 2 powi (e + 1)"
  shows "binade x = e"
proof -
  have "0 < (2::real) powi e" by simp
  with assms(1) have pos: "0 < \<bar>x\<bar>" by linarith
  have "(2::real) powr real_of_int e \<le> \<bar>x\<bar>" "\<bar>x\<bar> < (2::real) powr real_of_int (e + 1)"
    using assms powr_real_of_int' [of "2::real" e] powr_real_of_int' [of "2::real" "e + 1"]
    by (simp_all del: of_int_add)
  then have "real_of_int e \<le> log 2 \<bar>x\<bar>" "log 2 \<bar>x\<bar> < real_of_int (e + 1)"
    using pos by (simp_all add: le_log_iff log_less_iff)
  then show ?thesis
    unfolding binade_def by (intro floor_unique) simp_all
qed

lemma binade_bounds:
  assumes "x \<noteq> 0"
  shows "2 powi binade x \<le> \<bar>x\<bar>" and "\<bar>x\<bar> < 2 powi (binade x + 1)"
proof -
  have pos: "0 < \<bar>x\<bar>" using assms by simp
  have "real_of_int (binade x) \<le> log 2 \<bar>x\<bar>" "log 2 \<bar>x\<bar> < real_of_int (binade x + 1)"
    unfolding binade_def by linarith+
  then have "(2::real) powr real_of_int (binade x) \<le> \<bar>x\<bar>"
    "\<bar>x\<bar> < (2::real) powr real_of_int (binade x + 1)"
    using pos by (simp_all add: le_log_iff log_less_iff)
  then show "2 powi binade x \<le> \<bar>x\<bar>" and "\<bar>x\<bar> < 2 powi (binade x + 1)"
    using powr_real_of_int' [of "2::real" "binade x"]
      powr_real_of_int' [of "2::real" "binade x + 1"]
    by (simp_all del: of_int_add)
qed


lemma quantum_pos [simp]: "0 < quantum x"
  by (simp add: quantum_def)

lemma quantum_nonneg [simp]: "0 \<le> quantum x"
  by (simp add: quantum_def)

lemma quantum_nonzero [simp]: "quantum x \<noteq> 0"
  by (simp add: quantum_def)

lemma quantum_normal:
  assumes "2 powi (- 1022) \<le> \<bar>x\<bar>"
  shows "quantum x = 2 powi (binade x - 52)"
proof -
  have "0 < (2::real) powi (- 1022)" by simp
  with assms have nz: "x \<noteq> 0" by auto
  have "- 1022 \<le> binade x"
  proof (rule ccontr)
    assume "\<not> - 1022 \<le> binade x"
    then have "binade x + 1 \<le> - 1022" by simp
    then have "(2::real) powi (binade x + 1) \<le> 2 powi (- 1022)"
      by (intro power_int_increasing) simp_all
    with binade_bounds(2) [OF nz] assms show False by linarith
  qed
  then show ?thesis by (simp add: quantum_def max_def)
qed

lemma quantum_subnormal:
  assumes "\<bar>x\<bar> < 2 powi (- 1022)" "x \<noteq> 0"
  shows "quantum x = 2 powi (- 1074)"
proof -
  have "binade x < - 1022"
  proof (rule ccontr)
    assume "\<not> binade x < - 1022"
    then have "(2::real) powi (- 1022) \<le> 2 powi binade x"
      by (intro power_int_increasing) simp_all
    with binade_bounds(1) [OF assms(2)] assms(1) show False by linarith
  qed
  then show ?thesis by (simp add: quantum_def max_def)
qed

lemma quantum_ge: "2 powi (- 1074) \<le> quantum x"
  unfolding quantum_def by (intro power_int_increasing) simp_all

lemma binary64_zero [simp]: "binary64 0 = 0"
  by (simp add: binary64_def)

lemma binary64_quantum_error: "\<bar>binary64 x - x\<bar> \<le> quantum x / 2"
proof (cases "x = 0")
  case True
  then show ?thesis by simp
next
  case False
  define p where "p = quantum x"
  have p: "0 < p" by (simp add: p_def)
  have "binary64 x - x = (of_int (rne (x / p)) - x / p) * p"
    using False p by (simp add: binary64_def p_def field_simps)
  then have "\<bar>binary64 x - x\<bar> = \<bar>of_int (rne (x / p)) - x / p\<bar> * p"
    using p by (simp add: abs_mult)
  also have "\<dots> \<le> 1 / 2 * p"
    using rne_error [of "x / p"] p by (intro mult_right_mono) simp_all
  finally show ?thesis by (simp add: p_def)
qed

lemma binary64_error:
  assumes "2 powi (- 1022) \<le> \<bar>x\<bar>"
  shows "\<bar>binary64 x - x\<bar> \<le> \<bar>x\<bar> / 2 ^ 53"
proof -
  have "0 < (2::real) powi (- 1022)" by simp
  with assms have nz: "x \<noteq> 0" by auto
  have "\<bar>binary64 x - x\<bar> \<le> 2 powi (binade x - 52) / 2"
    using binary64_quantum_error [of x] by (simp add: quantum_normal [OF assms])
  also have "\<dots> = 2 powi binade x / 2 ^ 53"
    by (simp add: power_int_diff)
  also have "\<dots> \<le> \<bar>x\<bar> / 2 ^ 53"
    using binade_bounds(1) [OF nz] by (intro divide_right_mono) simp_all
  finally show ?thesis .
qed

lemma binary64_subnormal_error:
  assumes "\<bar>x\<bar> < 2 powi (- 1022)"
  shows "\<bar>binary64 x - x\<bar> \<le> 2 powi (- 1075)"
proof (cases "x = 0")
  case True
  then show ?thesis by simp
next
  case False
  have "\<bar>binary64 x - x\<bar> \<le> 2 powi (- 1074) / 2"
    using binary64_quantum_error [of x] by (simp add: quantum_subnormal [OF assms False])
  also have "\<dots> = 2 powi (- 1075)"
    by (simp add: power_int_minus)
  finally show ?thesis .
qed

lemma binary64_near:
  assumes "x \<noteq> 0" and "\<bar>x - of_int m * quantum x\<bar> < quantum x / 2"
  shows "binary64 x = of_int m * quantum x"
proof -
  define p where "p = quantum x"
  have p: "0 < p" by (simp add: p_def)
  have "x / p - of_int m = (x - of_int m * p) / p"
    using p by (simp add: field_simps)
  then have "\<bar>x / p - of_int m\<bar> = \<bar>x - of_int m * p\<bar> / p"
    using p by (simp add: abs_divide)
  also have "\<dots> < (p / 2) / p"
    using assms(2) p unfolding p_def [symmetric] by (intro divide_strict_right_mono)
  finally have "\<bar>x / p - of_int m\<bar> < 1 / 2"
    using p by simp
  then have "rne (x / p) = m" by (rule rne_near)
  with assms(1) show ?thesis by (simp add: binary64_def p_def)
qed

lemma binary64_nearest:
  assumes "2 powi e \<le> \<bar>x\<bar>" "\<bar>x\<bar> < 2 powi (e + 1)" "- 1022 \<le> e"
    and "\<bar>x - of_int m * 2 powi (e - 52)\<bar> < 2 powi (e - 53)"
  shows "binary64 x = of_int m * 2 powi (e - 52)"
proof -
  have "0 < (2::real) powi e" by simp
  with assms(1) have "0 < \<bar>x\<bar>" by linarith
  then have nz: "x \<noteq> 0" by simp
  have b: "binade x = e" using assms(1,2) by (rule binade_unique)
  have q: "quantum x = 2 powi (e - 52)"
    using assms(3) by (simp add: quantum_def b max_def)
  have half: "2 powi (e - 53) = 2 powi (e - 52) / (2::real)"
    by (simp add: power_int_diff)
  show ?thesis
    using binary64_near [of x m] nz assms(4) unfolding q half by simp
qed

lemma binary64_representable:
  assumes "\<bar>m\<bar> < 2 ^ 53" "- 1074 \<le> j"
  shows "binary64 (of_int m * 2 powi j) = of_int m * 2 powi j"
proof (cases "m = 0")
  case True
  then show ?thesis by simp
next
  case False
  define x :: real where "x = of_int m * 2 powi j"
  have nz: "x \<noteq> 0" using False by (simp add: x_def)
  define e where "e = max (binade x) (- 1022)"
  have "e - 52 \<le> j"
  proof (cases "- 1022 \<le> binade x")
    case False
    then show ?thesis using assms(2) by (simp add: e_def max_def)
  next
    case True
    have "real_of_int \<bar>m\<bar> < real_of_int (2 ^ 53)"
      using assms(1) by (simp only: of_int_less_iff)
    then have m: "\<bar>real_of_int m\<bar> < 2 powi 53" by simp
    have "2 powi binade x \<le> \<bar>x\<bar>" using binade_bounds(1) [OF nz] .
    also have "\<bar>x\<bar> = \<bar>real_of_int m\<bar> * 2 powi j"
      by (simp add: x_def abs_mult)
    also have "\<dots> < 2 powi 53 * 2 powi j"
      using m by (intro mult_strict_right_mono) simp_all
    also have "\<dots> = 2 powi (53 + j)"
      by (simp add: power_int_add)
    finally have lt: "(2::real) powi binade x < 2 powi (53 + j)" .
    have "binade x < 53 + j"
    proof (rule ccontr)
      assume "\<not> binade x < 53 + j"
      then have "(2::real) powi (53 + j) \<le> 2 powi binade x"
        by (intro power_int_increasing) simp_all
      with lt show False by linarith
    qed
    with True show ?thesis by (simp add: e_def max_def)
  qed
  define i where "i = nat (j - (e - 52))"
  have i: "j = (e - 52) + int i"
    using \<open>e - 52 \<le> j\<close> by (simp add: i_def)
  have q: "quantum x = 2 powi (e - 52)"
    by (simp add: quantum_def e_def)
  have "x = real_of_int (m * 2 ^ i) * 2 powi (e - 52)"
    by (simp add: x_def i power_int_add)
  then have "x / quantum x = real_of_int (m * 2 ^ i)"
    unfolding q by simp
  then have "rne (x / quantum x) = m * 2 ^ i"
    by (simp only: rne_of_int)
  then have "binary64 x = real_of_int (m * 2 ^ i) * 2 powi (e - 52)"
    using nz by (simp add: binary64_def q)
  also have "\<dots> = x"
    by (simp add: x_def i power_int_add)
  finally show ?thesis by (simp add: x_def)
qed

lemma binary64_of_int:
  assumes "\<bar>n\<bar> < 2 ^ 53"
  shows "binary64 (of_int n) = of_int n"
  using binary64_representable [OF assms, of 0] by simp

lemma binary64_one [simp]: "binary64 1 = 1"
  using binary64_of_int [of 1] by simp

lemma binary64_numeral [simp]:
  "numeral k < (2::int) ^ 53 \<Longrightarrow> binary64 (numeral k) = numeral k"
  using binary64_of_int [of "numeral k"] by simp

lemma binary64_neg_numeral [simp]:
  "numeral k < (2::int) ^ 53 \<Longrightarrow> binary64 (- numeral k) = - numeral k"
  using binary64_of_int [of "- numeral k"] by simp

subsection \<open>The grid of the doubles and the overflow\<close>

lemma binary64_error_mixed:
  "\<bar>binary64 x - x\<bar> \<le> max (\<bar>x\<bar> / 2 ^ 53) (2 powi (- 1075))"
proof (cases "2 powi (- 1022) \<le> \<bar>x\<bar>")
  case True
  then show ?thesis using binary64_error [of x] by simp
next
  case False
  then show ?thesis using binary64_subnormal_error [of x] by simp
qed

lemma powi_shift: "of_int r * (2::real) powi (j + int i) = of_int (r * 2 ^ i) * 2 powi j"
  by (simp add: power_int_add)

lemma binary64_on_grid: "\<exists>k::int. binary64 x = of_int k * 2 powi (- 1074)"
proof (cases "x = 0")
  case True
  then have "binary64 x = of_int 0 * 2 powi (- 1074)" by simp
  then show ?thesis ..
next
  case False
  define e where "e = max (binade x) (- 1022)"
  define i where "i = nat (e + 1022)"
  have "0 \<le> e + 1022" by (simp add: e_def)
  then have e: "e - 52 = - 1074 + int i"
    by (simp add: i_def)
  have "binary64 x = of_int (rne (x / quantum x)) * 2 powi (e - 52)"
    using False by (simp add: binary64_def quantum_def e_def)
  also have "\<dots> = of_int (rne (x / quantum x) * 2 ^ i) * 2 powi (- 1074)"
    unfolding e by (rule powi_shift)
  finally show ?thesis ..
qed

lemma grid_int_less:
  fixes h :: real
  assumes "0 < h" and "\<bar>of_int m * h\<bar> < c * h"
  shows "\<bar>real_of_int m\<bar> < c"
proof -
  have "\<bar>real_of_int m\<bar> * h < c * h"
    using assms by (simp add: abs_mult)
  then show ?thesis
    using assms(1) by (simp only: mult_less_cancel_right_pos)
qed

lemma rne_ge: "of_int n \<le> y \<Longrightarrow> n \<le> rne y"
proof -
  assume "of_int n \<le> y"
  then have "n \<le> \<lfloor>y\<rfloor>" by (simp add: le_floor_iff)
  moreover have "\<lfloor>y\<rfloor> \<le> rne y" by (simp add: rne_def)
  ultimately show ?thesis by linarith
qed

lemma rne_le: "y \<le> of_int n \<Longrightarrow> rne y \<le> n"
proof (cases "y = of_int \<lfloor>y\<rfloor>")
  case True
  assume "y \<le> of_int n"
  then have "\<lfloor>y\<rfloor> \<le> n" by (simp add: floor_le_iff)
  moreover from True have "y - of_int \<lfloor>y\<rfloor> = 0" by simp
  then have "rne y = \<lfloor>y\<rfloor>" by (simp add: rne_def)
  ultimately show ?thesis by simp
next
  case False
  assume le: "y \<le> of_int n"
  have "of_int \<lfloor>y\<rfloor> \<le> y" by simp
  with False have "of_int \<lfloor>y\<rfloor> < y" by linarith
  with le have "real_of_int \<lfloor>y\<rfloor> < of_int n" by linarith
  then have "\<lfloor>y\<rfloor> < n" by (simp only: of_int_less_iff)
  moreover have "rne y \<le> \<lfloor>y\<rfloor> + 1" by (simp add: rne_def)
  ultimately show ?thesis by linarith
qed

lemma binary64_overflow:
  assumes "2 ^ 1024 \<le> \<bar>x\<bar>"
  shows "2 ^ 1024 \<le> \<bar>binary64 x\<bar>"
proof -
  define e where "e = binade x"
  define q :: real where "q = 2 powi (e - 52)"
  have big: "(2::real) powi 1024 \<le> \<bar>x\<bar>" using assms by simp
  have "0 < (2::real) powi 1024" by simp
  with big have nz: "x \<noteq> 0" by auto
  have lo: "2 powi e \<le> \<bar>x\<bar>" and hi: "\<bar>x\<bar> < 2 powi (e + 1)"
    unfolding e_def using binade_bounds [OF nz] by simp_all
  have e: "1024 \<le> e"
  proof (rule ccontr)
    assume "\<not> 1024 \<le> e"
    then have "(2::real) powi (e + 1) \<le> 2 powi 1024"
      by (intro power_int_increasing) simp_all
    with hi big show False by linarith
  qed
  have q: "0 < q" by (simp add: q_def)
  have qx: "quantum x = q"
    using e by (simp add: quantum_def q_def e_def [symmetric] max_def)
  have pe: "(2::real) powi e = 2 ^ 52 * q"
  proof -
    have "(2::real) powi e = 2 powi (52 + (e - 52))" by simp
    also have "\<dots> = 2 powi 52 * 2 powi (e - 52)"
      by (rule power_int_add) simp
    finally show ?thesis by (simp add: q_def)
  qed
  have b: "binary64 x = of_int (rne (x / q)) * q"
    using nz by (simp add: binary64_def qx)
  have "(2::int) ^ 52 \<le> \<bar>rne (x / q)\<bar>"
  proof (cases "0 \<le> x")
    case True
    with lo have "2 ^ 52 * q \<le> x" by (simp add: pe)
    then have "2 ^ 52 \<le> x / q" using q by (simp add: field_simps)
    then have "real_of_int (2 ^ 52) \<le> x / q" by simp
    then have "2 ^ 52 \<le> rne (x / q)" by (rule rne_ge)
    then show ?thesis by linarith
  next
    case False
    with lo have "x \<le> - (2 ^ 52 * q)" by (simp add: pe)
    then have "x / q \<le> - (2 ^ 52)" using q by (simp add: field_simps)
    then have "x / q \<le> real_of_int (- (2 ^ 52))" by simp
    then have "rne (x / q) \<le> - (2 ^ 52)" by (rule rne_le)
    then show ?thesis by linarith
  qed
  then have "real_of_int (2 ^ 52) \<le> real_of_int \<bar>rne (x / q)\<bar>"
    by (simp only: of_int_le_iff)
  then have "2 ^ 52 \<le> \<bar>real_of_int (rne (x / q))\<bar>" by simp
  then have "2 ^ 52 * q \<le> \<bar>real_of_int (rne (x / q))\<bar> * q"
    using q by (intro mult_right_mono) simp_all
  also have "\<dots> = \<bar>binary64 x\<bar>"
    using q by (simp add: b abs_mult)
  finally have "2 powi e \<le> \<bar>binary64 x\<bar>" by (simp add: pe)
  moreover have "(2::real) powi 1024 \<le> 2 powi e"
    using e by (intro power_int_increasing) simp_all
  ultimately have "(2::real) powi 1024 \<le> \<bar>binary64 x\<bar>" by linarith
  then show ?thesis by simp
qed

lemma js_number_overflow: "2 ^ 1024 \<le> \<bar>x\<bar> \<Longrightarrow> js_number x = None"
  using binary64_overflow [of x] by (simp add: js_number_def)

lemma js_number_finite:
  "binary64 x = x \<Longrightarrow> \<bar>x\<bar> < 2 ^ 1024 \<Longrightarrow> js_number x = Some x"
  by (simp add: js_number_def)

section \<open>Properties of the score total\<close>

subsection \<open>The loop computes the two sums\<close>

lemma find_weight_table_None:
  "find (\<lambda>c. c_id c = k) criteria = None \<longleftrightarrow> weight_table criteria k = None"
  by (induction criteria) (auto simp: weight_table_def)

lemma find_weight_table_Some:
  "find (\<lambda>c. c_id c = k) criteria = Some c \<Longrightarrow> weight_table criteria k = Some (c_weightage c)"
  by (induction criteria) (auto simp: weight_table_def split: if_splits)

lemma score_loop_sums:
  "score_loop fl criteria scores (a, w) =
     (foldl (add_term fl criteria) a (matched criteria scores),
      w + spec_totalWeight criteria scores)"
proof (induction scores arbitrary: a w)
  case Nil
  show ?case
    by (simp add: spec_totalWeight_def matched_def)
next
  case (Cons sc rest)
  show ?case
  proof (cases "find (\<lambda>c. c_id c = criteriaId sc) criteria")
    case None
    then have "weight_table criteria (criteriaId sc) = None"
      by (simp add: find_weight_table_None)
    with None Cons show ?thesis
      by (simp add: spec_totalWeight_def matched_def)
  next
    case (Some c)
    then have "weight_table criteria (criteriaId sc) = Some (c_weightage c)"
      by (rule find_weight_table_Some)
    with Some Cons show ?thesis
      by (simp add: spec_totalWeight_def matched_def weight_of_def add_term_def)
  qed
qed

lemma computeTotalScore_sums:
  "computeTotalScore fl criteria scores =
     (if spec_totalWeight criteria scores > 0 \<and> spec_totalWeight criteria scores \<noteq> 100
      then fl (fl (spec_weightedSum fl criteria scores * 100)
                 / real_of_int (spec_totalWeight criteria scores))
      else spec_weightedSum fl criteria scores)"
  by (simp add: computeTotalScore_def score_loop_sums spec_weightedSum_def)

lemma foldl_add_term_exact:
  "foldl (add_term exact criteria) a xs =
     a + sum_list (map (\<lambda>sc. score sc * real_of_int (weight_of criteria sc) / 100) xs)"
  by (induction xs arbitrary: a) (simp_all add: add_term_def exact_def)

lemma spec_weightedSum_exact:
  "spec_weightedSum exact criteria scores =
     sum_list (map (\<lambda>sc. score sc * real_of_int (weight_of criteria sc) / 100)
       (matched criteria scores))"
  by (simp add: spec_weightedSum_def foldl_add_term_exact)

subsection \<open>The loop in doubles\<close>

lemma js_term_Some:
  "js_add (Some a) (js_div (js_mul (Some x) w) 100) = Some b \<Longrightarrow>
     b = binary64 (a + binary64 (binary64 (x * w) / 100))"
  by (auto simp: js_add_def js_div_def js_mul_def js_number_def split: option.splits if_splits)

lemma js_rescale_Some:
  "js_div (js_mul a 100) d = Some b \<Longrightarrow>
     \<exists>x. a = Some x \<and> b = binary64 (binary64 (x * 100) / d)"
  by (auto simp: js_div_def js_mul_def js_number_def split: option.splits if_splits)

lemma js_add_None [simp]: "js_add None b = None"
  by (simp add: js_add_def)

lemma js_rescale_None [simp]: "js_div (js_mul None w) d = None"
  by (simp add: js_div_def js_mul_def)

lemma score_loop_js_None: "fst (score_loop_js criteria scs (None, w)) = None"
  by (induction scs arbitrary: w) (simp_all split: option.splits)

lemma score_loop_js_Some:
  "score_loop_js criteria scs (Some a, w) = (Some t, w') \<Longrightarrow>
     score_loop binary64 criteria scs (a, w) = (t, w')"
proof (induction scs arbitrary: a w)
  case Nil
  then show ?case by simp
next
  case (Cons sc rest)
  show ?case
  proof (cases "find (\<lambda>c. c_id c = criteriaId sc) criteria")
    case None
    with Cons show ?thesis by simp
  next
    case found: (Some c)
    define n where
      "n = js_add (Some a) (js_div (js_mul (Some (score sc)) (real_of_int (c_weightage c))) 100)"
    from Cons.prems found
    have run: "score_loop_js criteria rest (n, w + c_weightage c) = (Some t, w')"
      by (simp add: n_def)
    show ?thesis
    proof (cases n)
      case None
      with run score_loop_js_None [of criteria rest "w + c_weightage c"]
      show ?thesis by simp
    next
      case (Some b)
      then have b: "b = binary64 (a + binary64 (binary64
                          (score sc * real_of_int (c_weightage c)) / 100))"
        unfolding n_def by (rule js_term_Some)
      from run Some
      have "score_loop binary64 criteria rest (b, w + c_weightage c) = (t, w')"
        by (simp add: Cons.IH)
      with b found show ?thesis by simp
    qed
  qed
qed

lemma computeTotalScore_js_Some:
  assumes "computeTotalScore_js criteria scs = Some t"
  shows "fst (score_loop_js criteria scs (Some 0, 0))
           = Some (spec_weightedSum binary64 criteria scs)"
    and "computeTotalScore binary64 criteria scs = t"
proof -
  obtain a w where loop: "score_loop_js criteria scs (Some 0, 0) = (a, w)"
    by (cases "score_loop_js criteria scs (Some 0, 0)")
  have "a \<noteq> None"
  proof
    assume "a = None"
    with loop have "computeTotalScore_js criteria scs = None"
      by (simp add: computeTotalScore_js_def)
    with assms show False by simp
  qed
  then obtain ts where a: "a = Some ts" by blast
  with loop have l: "score_loop binary64 criteria scs (0, 0) = (ts, w)"
    by (intro score_loop_js_Some) simp
  then have ts: "ts = spec_weightedSum binary64 criteria scs"
    and w: "w = spec_totalWeight criteria scs"
    by (simp_all add: score_loop_sums spec_weightedSum_def)
  from loop a ts show "fst (score_loop_js criteria scs (Some 0, 0))
           = Some (spec_weightedSum binary64 criteria scs)"
    by simp
  show "computeTotalScore binary64 criteria scs = t"
  proof (cases "w > 0 \<and> w \<noteq> 100")
    case True
    with assms loop a have "js_div (js_mul (Some ts) 100) (real_of_int w) = Some t"
      by (simp add: computeTotalScore_js_def)
    then have "t = binary64 (binary64 (ts * 100) / real_of_int w)"
      by (auto dest: js_rescale_Some)
    with True l show ?thesis by (simp add: computeTotalScore_def)
  next
    case False
    with assms loop a have "ts = t"
      by (simp add: computeTotalScore_js_def)
    with False l show ?thesis by (auto simp: computeTotalScore_def)
  qed
qed

lemma computeTotalScore_js_100:
  assumes "spec_totalWeight criteria scs = 100"
  shows "computeTotalScore_js criteria scs = fst (score_loop_js criteria scs (Some 0, 0))"
proof -
  obtain a w where loop: "score_loop_js criteria scs (Some 0, 0) = (a, w)"
    by (cases "score_loop_js criteria scs (Some 0, 0)")
  show ?thesis
  proof (cases a)
    case None
    with loop show ?thesis by (simp add: computeTotalScore_js_def)
  next
    case (Some ts)
    with loop have "score_loop binary64 criteria scs (0, 0) = (ts, w)"
      by (intro score_loop_js_Some) simp
    then have "w = spec_totalWeight criteria scs"
      by (simp add: score_loop_sums)
    with assms loop show ?thesis by (simp add: computeTotalScore_js_def)
  qed
qed

lemma foldl_add_term_grid:
  assumes "\<exists>k::int. a = of_int k * 2 powi (- 1074)"
  shows "\<exists>k::int. foldl (add_term binary64 criteria) a xs = of_int k * 2 powi (- 1074)"
  using assms
proof (induction xs arbitrary: a)
  case Nil
  then show ?case by simp
next
  case (Cons x xs)
  have "\<exists>k::int. add_term binary64 criteria a x = of_int k * 2 powi (- 1074)"
    unfolding add_term_def by (rule binary64_on_grid)
  then show ?case
    unfolding foldl_Cons by (rule Cons.IH)
qed

lemma spec_weightedSum_grid:
  "\<exists>k::int. spec_weightedSum binary64 criteria scs = of_int k * 2 powi (- 1074)"
proof -
  have "(0::real) = of_int 0 * 2 powi (- 1074)" by simp
  then have "\<exists>k::int. (0::real) = of_int k * 2 powi (- 1074)" ..
  then show ?thesis
    unfolding spec_weightedSum_def by (rule foldl_add_term_grid)
qed

lemmas js_defs = computeTotalScore_js_def js_add_def js_mul_def js_div_def js_number_def

lemmas score_defs = computeTotalScore_def spec_total_def spec_totalWeight_def
  spec_weightedSum_def add_term_def matched_def weight_table_def weight_of_def
  criteria_AB_def criteria_half_def criteria_negative_def
  scores_AB_def scores_A_def scores_1_8_def scores_gone_def

subsection \<open>The total against the specified formula\<close>

text \<open>
  C3, as the specification states it, fails where the matched weights sum to a negative
  number: the weight column is a plain integer and the handlers that write it check
  nothing. With the single criterion of weight \<open>-50\<close> and the score 10 the specified
  total rescales to 10, and the program, whose guard is \<^verbatim>\<open>totalWeightage > 0\<close>, leaves
  the weighted sum \<open>-5\<close>. Every operation in this example is exact in doubles.
\<close>

theorem computeTotalScore_counterexample:
  "computeTotalScore binary64 criteria_negative scores_A = - 5
   \<and> spec_total binary64 criteria_negative scores_A = 10
   \<and> computeTotalScore binary64 criteria_negative scores_A
       \<noteq> spec_total binary64 criteria_negative scores_A
   \<and> computeTotalScore exact criteria_negative scores_A = - 5
   \<and> spec_total exact criteria_negative scores_A = 10"
  by (simp add: score_defs exact_def)

text \<open>
  C3, amended: for every list of known criteria and every list of submitted pairs, in
  the program's arithmetic and in exact arithmetic alike, the total is the weighted sum
  of \<open>score * weight / 100\<close> over the pairs whose criterion is known, left as it is when
  the matched weights sum to 100 or to zero or less, and multiplied by 100 and divided
  by the sum of the matched weights otherwise; the matched pairs are exactly those
  whose criterion id is the id of a known criterion, so the others add to neither sum;
  and in exact arithmetic the weighted sum is the sum of the terms.
\<close>

theorem computeTotalScore_amended:
  "computeTotalScore fl criteria scs =
     (if spec_totalWeight criteria scs \<le> 0 \<or> spec_totalWeight criteria scs = 100
      then spec_weightedSum fl criteria scs
      else fl (fl (spec_weightedSum fl criteria scs * 100)
                 / real_of_int (spec_totalWeight criteria scs)))
   \<and> matched criteria scs =
       filter (\<lambda>sc. criteriaId sc \<in> c_id ` set criteria) scs
   \<and> spec_weightedSum exact criteria scs =
       sum_list (map (\<lambda>sc. score sc * real_of_int (weight_of criteria sc) / 100)
         (matched criteria scs))"
proof -
  have "weight_table criteria k \<noteq> None \<longleftrightarrow> k \<in> c_id ` set criteria" for k
    by (simp add: weight_table_def map_of_eq_None_iff image_image)
  then have "matched criteria scs = filter (\<lambda>sc. criteriaId sc \<in> c_id ` set criteria) scs"
    by (simp add: matched_def)
  then show ?thesis
    by (simp add: computeTotalScore_sums spec_weightedSum_exact)
qed

theorem computeTotalScore_amended_witness:
  "computeTotalScore binary64 criteria_half scores_gone = 80
   \<and> spec_weightedSum binary64 criteria_half scores_gone = 24
   \<and> spec_totalWeight criteria_half scores_gone = 30
   \<and> computeTotalScore binary64 criteria_negative scores_A
       = spec_weightedSum binary64 criteria_negative scores_A"
  using computeTotalScore_amended [of binary64 criteria_half scores_gone]
    computeTotalScore_amended [of binary64 criteria_negative scores_A]
  by (simp add: spec_totalWeight_def spec_weightedSum_def add_term_def matched_def
      weight_table_def weight_of_def criteria_half_def criteria_negative_def
      scores_gone_def scores_A_def)

subsection \<open>Weights that sum to 100 or to 50\<close>

lemma rescale_normal:
  assumes n: "2 powi (- 1022) \<le> \<bar>2 * w\<bar>"
  shows "\<bar>binary64 (binary64 (w * 100) / 50) - 2 * w\<bar> \<le> \<bar>2 * w\<bar> / 2 ^ 51"
proof -
  define u :: real where "u = 1 / 2 ^ 53"
  define N :: real where "N = 2 powi (- 1022)"
  define a where "a = binary64 (w * 100)"
  define y where "y = a / 50"
  define b where "b = binary64 y"
  have u: "0 < u" "u \<le> 1" by (simp_all add: u_def)
  have N: "0 < N" by (simp add: N_def)
  have half: "2 powi (- 1075) = N * u"
    by (simp add: N_def u_def power_int_minus)
  have n': "N \<le> \<bar>w\<bar> * 2" using n by (simp add: N_def abs_mult)
  then have "N \<le> \<bar>w * 100\<bar>" by (simp add: abs_mult)
  then have "\<bar>a - w * 100\<bar> \<le> \<bar>w * 100\<bar> / 2 ^ 53"
    unfolding a_def N_def by (rule binary64_error)
  then have a: "\<bar>a - w * 100\<bar> \<le> \<bar>w\<bar> * 100 * u"
    by (simp add: u_def abs_mult)
  have e: "y - 2 * w = (a - w * 100) / 50"
    by (simp add: y_def field_simps)
  have "\<bar>y - 2 * w\<bar> = \<bar>a - w * 100\<bar> / 50"
    unfolding e abs_divide by simp
  also have "\<dots> \<le> (\<bar>w\<bar> * 100 * u) / 50"
    using a by (intro divide_right_mono) simp_all
  also have "\<dots> = \<bar>w\<bar> * 2 * u" by simp
  finally have c: "\<bar>y - 2 * w\<bar> \<le> \<bar>w\<bar> * 2 * u" .
  have "\<bar>y\<bar> \<le> \<bar>2 * w\<bar> + \<bar>y - 2 * w\<bar>" by linarith
  with c have y: "\<bar>y\<bar> \<le> \<bar>w\<bar> * 2 * (1 + u)"
    by (simp add: algebra_simps abs_mult)
  have "\<bar>y\<bar> / 2 ^ 53 = \<bar>y\<bar> * u" by (simp add: u_def)
  also have "\<dots> \<le> (\<bar>w\<bar> * 2 * (1 + u)) * u"
    using y u by (intro mult_right_mono) simp_all
  finally have m1: "\<bar>y\<bar> / 2 ^ 53 \<le> \<bar>w\<bar> * 2 * (1 + u) * u" .
  have "N * u \<le> (\<bar>w\<bar> * 2) * u"
    using n' u by (intro mult_right_mono) simp_all
  also have "\<dots> \<le> (\<bar>w\<bar> * 2 * (1 + u)) * u"
    using u by (intro mult_right_mono) (simp_all add: algebra_simps)
  finally have m2: "2 powi (- 1075) \<le> \<bar>w\<bar> * 2 * (1 + u) * u"
    unfolding half .
  have "\<bar>b - y\<bar> \<le> max (\<bar>y\<bar> / 2 ^ 53) (2 powi (- 1075))"
    unfolding b_def by (rule binary64_error_mixed)
  with m1 m2 have d: "\<bar>b - y\<bar> \<le> \<bar>w\<bar> * 2 * (1 + u) * u"
    by simp
  have "\<bar>b - 2 * w\<bar> \<le> \<bar>b - y\<bar> + \<bar>y - 2 * w\<bar>" by linarith
  also have "\<dots> \<le> \<bar>w\<bar> * 2 * (1 + u) * u + \<bar>w\<bar> * 2 * u"
    using c d by linarith
  also have "\<dots> = \<bar>2 * w\<bar> * (u * (2 + u))"
    by (simp add: abs_mult algebra_simps)
  also have "\<dots> \<le> \<bar>2 * w\<bar> * (1 / 2 ^ 51)"
    by (intro mult_left_mono) (simp_all add: u_def)
  finally show ?thesis
    by (simp add: a_def b_def y_def)
qed

lemma rescale_subnormal:
  assumes g: "w = of_int k * 2 powi (- 1074)"
    and s: "\<bar>2 * w\<bar> < 2 powi (- 1022)"
  shows "binary64 (binary64 (w * 100) / 50) = 2 * w"
proof (cases "w = 0")
  case True
  then show ?thesis by simp
next
  case False
  define u :: real where "u = 1 / 2 ^ 53"
  define h :: real where "h = 2 powi (- 1074)"
  define N :: real where "N = 2 powi (- 1022)"
  define a where "a = binary64 (w * 100)"
  define y where "y = a / 50"
  have u: "0 < u" "u < 1" by (simp_all add: u_def)
  have h: "0 < h" by (simp add: h_def)
  have "(2::real) powi (- 1022) = 2 powi (52 + (- 1074))" by simp
  also have "\<dots> = 2 ^ 52 * h"
    unfolding h_def by (subst power_int_add) simp_all
  finally have N: "N = 2 ^ 52 * h" by (simp add: N_def)
  have Nu: "N * u = h / 2"
    by (simp add: N u_def)
  have w: "w = of_int k * h" unfolding h_def by (rule g)
  have w2: "\<bar>w\<bar> * 2 < N" using s by (simp add: N_def abs_mult)
  have w2e: "2 * w = real_of_int (2 * k) * h"
    by (simp add: w)
  have "\<bar>real_of_int (2 * k) * h\<bar> < 2 ^ 52 * h"
    using w2 unfolding N w2e [symmetric] by (simp add: abs_mult)
  with h have "\<bar>real_of_int (2 * k)\<bar> < 2 ^ 52"
    by (rule grid_int_less)
  then have "real_of_int \<bar>2 * k\<bar> < real_of_int (2 ^ 52)"
    by simp
  then have k2: "\<bar>2 * k\<bar> < 2 ^ 52"
    by (simp only: of_int_less_iff)
  have a: "\<bar>a - w * 100\<bar> \<le> \<bar>w\<bar> * 100 * u"
  proof (cases "N \<le> \<bar>w * 100\<bar>")
    case True
    then have "\<bar>a - w * 100\<bar> \<le> \<bar>w * 100\<bar> / 2 ^ 53"
      unfolding a_def N_def by (rule binary64_error)
    then show ?thesis by (simp add: u_def abs_mult)
  next
    case False
    moreover have w100: "w * 100 = real_of_int (100 * k) * h"
      by (simp add: w)
    ultimately have "\<bar>real_of_int (100 * k) * h\<bar> < 2 ^ 52 * h"
      unfolding N by simp
    with h have "\<bar>real_of_int (100 * k)\<bar> < 2 ^ 52"
      by (rule grid_int_less)
    then have "real_of_int \<bar>100 * k\<bar> < real_of_int (2 ^ 52)"
      by simp
    then have "\<bar>100 * k\<bar> < 2 ^ 52"
      by (simp only: of_int_less_iff)
    then have "\<bar>100 * k\<bar> < 2 ^ 53" by simp
    then have "binary64 (of_int (100 * k) * h) = of_int (100 * k) * h"
      unfolding h_def by (rule binary64_representable) simp
    then have "a = w * 100"
      unfolding a_def w100 .
    then show ?thesis using u by simp
  qed
  have e: "y - 2 * w = (a - w * 100) / 50"
    by (simp add: y_def field_simps)
  have "\<bar>y - 2 * w\<bar> = \<bar>a - w * 100\<bar> / 50"
    unfolding e abs_divide by simp
  also have "\<dots> \<le> (\<bar>w\<bar> * 100 * u) / 50"
    using a by (intro divide_right_mono) simp_all
  also have "\<dots> = (\<bar>w\<bar> * 2) * u" by simp
  finally have c: "\<bar>y - 2 * w\<bar> \<le> (\<bar>w\<bar> * 2) * u" .
  have "(\<bar>w\<bar> * 2) * u < N * u"
    using w2 u by (intro mult_strict_right_mono) simp_all
  with c Nu have near: "\<bar>y - 2 * w\<bar> < h / 2" by simp
  have ynz: "y \<noteq> 0"
  proof
    assume "y = 0"
    then have "\<bar>y - 2 * w\<bar> = \<bar>w\<bar> * 2" by (simp add: abs_mult)
    with c have le: "\<bar>w\<bar> * 2 \<le> (\<bar>w\<bar> * 2) * u" by linarith
    have "0 < \<bar>w\<bar> * 2" using False by simp
    then have "(\<bar>w\<bar> * 2) * u < (\<bar>w\<bar> * 2) * 1"
      using u by (intro mult_strict_left_mono) simp_all
    with le show False by linarith
  qed
  from k2 have "\<bar>2 * k\<bar> \<le> 2 ^ 52 - 1" by simp
  then have "real_of_int \<bar>2 * k\<bar> \<le> real_of_int (2 ^ 52 - 1)"
    by (simp only: of_int_le_iff)
  then have "\<bar>real_of_int (2 * k)\<bar> \<le> 2 ^ 52 - 1" by simp
  then have "\<bar>real_of_int (2 * k)\<bar> * h \<le> (2 ^ 52 - 1) * h"
    using h by (intro mult_right_mono) simp_all
  then have "\<bar>2 * w\<bar> \<le> (2 ^ 52 - 1) * h"
    using h unfolding w2e by (simp add: abs_mult)
  moreover have "\<bar>y\<bar> \<le> \<bar>2 * w\<bar> + \<bar>y - 2 * w\<bar>" by linarith
  ultimately have "\<bar>y\<bar> < (2 ^ 52 - 1) * h + h / 2"
    using near by linarith
  also have "\<dots> < N"
    using h by (simp add: N algebra_simps)
  finally have "\<bar>y\<bar> < 2 powi (- 1022)" by (simp add: N_def)
  then have q: "quantum y = h"
    using ynz unfolding h_def by (rule quantum_subnormal)
  have "binary64 y = of_int (2 * k) * quantum y"
    using ynz near unfolding w2e q [symmetric] by (intro binary64_near)
  then have "binary64 y = 2 * w"
    unfolding q w2e .
  then show ?thesis
    unfolding y_def a_def .
qed

lemma binary64_rescale_error:
  assumes "w = of_int k * 2 powi (- 1074)"
  shows "\<bar>binary64 (binary64 (w * 100) / 50) - 2 * w\<bar> \<le> \<bar>2 * w\<bar> / 2 ^ 51"
proof (cases "2 powi (- 1022) \<le> \<bar>2 * w\<bar>")
  case True
  then show ?thesis by (rule rescale_normal)
next
  case False
  then have "\<bar>2 * w\<bar> < 2 powi (- 1022)" by simp
  with assms have "binary64 (binary64 (w * 100) / 50) = 2 * w"
    by (rule rescale_subnormal)
  then show ?thesis by simp
qed

text \<open>
  C5 as stated fails in its second half: in doubles, multiplying by 100 and dividing by
  50 is not doubling. With the weights 30 and 20 and the scores 1 and 8 the loop ends
  with \<^verbatim>\<open>totalScore = 1.9000000000000001\<close>, whose double is
  \<^verbatim>\<open>3.8000000000000003\<close>, and the total is \<^verbatim>\<open>3.8\<close>, one unit in the last place
  below it.
\<close>

theorem normalization_round_trip_counterexample:
  "spec_totalWeight criteria_half scores_1_8 = 50
   \<and> fst (score_loop binary64 criteria_half scores_1_8 (0, 0)) = 8556839292003943 / 2 ^ 52
   \<and> computeTotalScore binary64 criteria_half scores_1_8 = 8556839292003942 / 2 ^ 51
   \<and> computeTotalScore binary64 criteria_half scores_1_8
       \<noteq> 2 * fst (score_loop binary64 criteria_half scores_1_8 (0, 0))
   \<and> fst (score_loop_js criteria_half scores_1_8 (Some 0, 0))
       = Some (8556839292003943 / 2 ^ 52)
   \<and> computeTotalScore_js criteria_half scores_1_8 = Some (8556839292003942 / 2 ^ 51)"
proof -
  define q1 :: real where "q1 = 5404319552844595 / 2 ^ 54"
  define q2 :: real where "q2 = 7205759403792794 / 2 ^ 52"
  define t2 :: real where "t2 = 8556839292003943 / 2 ^ 52"
  define r2 :: real where "r2 = 8556839292003942 / 2 ^ 51"
  have m: "matched criteria_half scores_1_8 = scores_1_8"
    by (simp add: matched_def weight_table_def criteria_half_def scores_1_8_def)
  have w: "weight_of criteria_half \<lparr>criteriaId = ''A'', score = 1\<rparr> = 30"
    "weight_of criteria_half \<lparr>criteriaId = ''B'', score = 8\<rparr> = 20"
    by (simp_all add: weight_of_def weight_table_def criteria_half_def)
  have tw: "spec_totalWeight criteria_half scores_1_8 = 50"
    unfolding spec_totalWeight_def m by (simp add: scores_1_8_def w)
  have b1: "binary64 (30 / 100) = q1"
    unfolding q1_def using binary64_nearest [of "- 2" "30 / 100" 5404319552844595] by simp
  have b2: "binary64 q1 = q1"
    unfolding q1_def
    using binary64_nearest [of "- 2" "5404319552844595 / 2 ^ 54" 5404319552844595] by simp
  from b1 b2 have s1: "add_term binary64 criteria_half 0 \<lparr>criteriaId = ''A'', score = 1\<rparr> = q1"
    by (simp add: add_term_def w)
  have b3: "binary64 (160 / 100) = q2"
    unfolding q2_def using binary64_nearest [of 0 "160 / 100" 7205759403792794] by simp
  have b4: "binary64 (q1 + q2) = t2"
    unfolding q1_def q2_def t2_def
    using binary64_nearest
      [of 0 "5404319552844595 / 2 ^ 54 + 7205759403792794 / 2 ^ 52" 8556839292003943]
    by simp
  from b3 b4 have s2: "add_term binary64 criteria_half q1 \<lparr>criteriaId = ''B'', score = 8\<rparr> = t2"
    by (simp add: add_term_def w)
  have ws: "spec_weightedSum binary64 criteria_half scores_1_8 = t2"
    unfolding spec_weightedSum_def m using s1 s2 by (simp add: scores_1_8_def)
  have loop: "fst (score_loop binary64 criteria_half scores_1_8 (0, 0)) = t2"
    using ws by (simp add: score_loop_sums spec_weightedSum_def)
  have b5: "binary64 (t2 * 100) = 190"
    unfolding t2_def
    using binary64_nearest [of 7 "8556839292003943 / 2 ^ 52 * 100" 6685030696878080] by simp
  have b6: "binary64 (190 / 50) = r2"
    unfolding r2_def using binary64_nearest [of 1 "190 / 50" 8556839292003942] by simp
  from b5 b6 have total: "computeTotalScore binary64 criteria_half scores_1_8 = r2"
    by (simp add: computeTotalScore_sums tw ws)
  have small: "\<bar>q1\<bar> < 2 ^ 1024" "\<bar>q2\<bar> < 2 ^ 1024" "\<bar>t2\<bar> < 2 ^ 1024"
    "\<bar>r2\<bar> < 2 ^ 1024"
    by (simp_all add: q1_def q2_def t2_def r2_def)
  have n1: "js_number (1 * 30) = Some 30" "js_number (30 / 100) = Some q1"
    "js_number (0 + q1) = Some q1"
    using b1 b2 small by (simp_all add: js_number_def)
  have n2: "js_number (8 * 20) = Some 160" "js_number (160 / 100) = Some q2"
    "js_number (q1 + q2) = Some t2"
    using b3 b4 small by (simp_all add: js_number_def)
  have n3: "js_number (t2 * 100) = Some 190" "js_number (190 / 50) = Some r2"
    using b5 b6 small by (simp_all add: js_number_def)
  have js_loop: "score_loop_js criteria_half scores_1_8 (Some 0, 0) = (Some t2, 50)"
    using n1 n2
    by (simp add: criteria_half_def scores_1_8_def js_add_def js_mul_def js_div_def)
  with n3 have js_total: "computeTotalScore_js criteria_half scores_1_8 = Some r2"
    by (simp add: computeTotalScore_js_def js_mul_def js_div_def)
  have "r2 \<noteq> 2 * t2"
    by (simp add: r2_def t2_def)
  with tw loop total js_loop js_total show ?thesis
    by (simp add: r2_def t2_def)
qed

text \<open>
  C5, amended: when the matched weights sum to exactly 100 the total is the weighted
  sum itself, the value of \<^verbatim>\<open>totalScore\<close> when the loop ends, whether finite or not;
  when they sum to 50 the total is exactly twice the weighted sum in exact arithmetic,
  and in the program's doubles, whenever the total is a finite number, the weighted sum
  is a finite number too and the total differs from twice the weighted sum by at most
  one part in \<open>2 ^ 51\<close> of it.
\<close>

theorem normalization_round_trip:
  "(spec_totalWeight criteria scs = 100 \<longrightarrow>
      computeTotalScore_js criteria scs = fst (score_loop_js criteria scs (Some 0, 0))
      \<and> computeTotalScore exact criteria scs = spec_weightedSum exact criteria scs
      \<and> (\<forall>t. computeTotalScore_js criteria scs = Some t \<longrightarrow>
            t = spec_weightedSum binary64 criteria scs))
   \<and> (spec_totalWeight criteria scs = 50 \<longrightarrow>
      computeTotalScore exact criteria scs = 2 * spec_weightedSum exact criteria scs
      \<and> (\<forall>t. computeTotalScore_js criteria scs = Some t \<longrightarrow>
            fst (score_loop_js criteria scs (Some 0, 0))
              = Some (spec_weightedSum binary64 criteria scs)
            \<and> \<bar>t - 2 * spec_weightedSum binary64 criteria scs\<bar>
                \<le> \<bar>2 * spec_weightedSum binary64 criteria scs\<bar> / 2 ^ 51))"
proof (intro conjI impI allI)
  assume "spec_totalWeight criteria scs = 100"
  then show "computeTotalScore_js criteria scs = fst (score_loop_js criteria scs (Some 0, 0))"
    by (rule computeTotalScore_js_100)
next
  assume "spec_totalWeight criteria scs = 100"
  then show "computeTotalScore exact criteria scs = spec_weightedSum exact criteria scs"
    by (simp add: computeTotalScore_sums)
next
  fix t
  assume w: "spec_totalWeight criteria scs = 100"
    and t: "computeTotalScore_js criteria scs = Some t"
  from t have "computeTotalScore binary64 criteria scs = t"
    by (rule computeTotalScore_js_Some)
  with w show "t = spec_weightedSum binary64 criteria scs"
    by (simp add: computeTotalScore_sums)
next
  assume "spec_totalWeight criteria scs = 50"
  then show "computeTotalScore exact criteria scs = 2 * spec_weightedSum exact criteria scs"
    by (simp add: computeTotalScore_sums exact_def)
next
  fix t
  assume "computeTotalScore_js criteria scs = Some t"
  then show "fst (score_loop_js criteria scs (Some 0, 0))
               = Some (spec_weightedSum binary64 criteria scs)"
    by (rule computeTotalScore_js_Some)
next
  fix t
  assume w: "spec_totalWeight criteria scs = 50"
    and t: "computeTotalScore_js criteria scs = Some t"
  from t have "computeTotalScore binary64 criteria scs = t"
    by (rule computeTotalScore_js_Some)
  with w have "t = binary64 (binary64 (spec_weightedSum binary64 criteria scs * 100) / 50)"
    by (simp add: computeTotalScore_sums)
  moreover obtain k :: int where
    "spec_weightedSum binary64 criteria scs = of_int k * 2 powi (- 1074)"
    using spec_weightedSum_grid by blast
  then have "\<bar>binary64 (binary64 (spec_weightedSum binary64 criteria scs * 100) / 50)
               - 2 * spec_weightedSum binary64 criteria scs\<bar>
             \<le> \<bar>2 * spec_weightedSum binary64 criteria scs\<bar> / 2 ^ 51"
    by (rule binary64_rescale_error)
  ultimately show "\<bar>t - 2 * spec_weightedSum binary64 criteria scs\<bar>
                     \<le> \<bar>2 * spec_weightedSum binary64 criteria scs\<bar> / 2 ^ 51"
    by simp
qed

theorem normalization_round_trip_witness:
  "spec_totalWeight criteria_AB scores_AB = 100
   \<and> computeTotalScore_js criteria_AB scores_AB = Some 76
   \<and> fst (score_loop_js criteria_AB scores_AB (Some 0, 0)) = Some 76
   \<and> spec_weightedSum binary64 criteria_AB scores_AB = 76
   \<and> spec_totalWeight criteria_half scores_AB = 50
   \<and> computeTotalScore_js criteria_half scores_AB = Some 76
   \<and> fst (score_loop_js criteria_half scores_AB (Some 0, 0)) = Some 38
   \<and> spec_weightedSum binary64 criteria_half scores_AB = 38
   \<and> computeTotalScore exact criteria_half scores_1_8 = 19 / 5
   \<and> spec_weightedSum exact criteria_half scores_1_8 = 19 / 10"
proof -
  have j: "computeTotalScore_js criteria_AB scores_AB = Some 76"
    "computeTotalScore_js criteria_half scores_AB = Some 76"
    by (simp_all add: js_defs criteria_AB_def criteria_half_def scores_AB_def)
  have w: "spec_totalWeight criteria_AB scores_AB = 100"
    "spec_totalWeight criteria_half scores_AB = 50"
    "spec_totalWeight criteria_half scores_1_8 = 50"
    by (simp_all add: spec_totalWeight_def matched_def weight_table_def weight_of_def
        criteria_AB_def criteria_half_def scores_AB_def scores_1_8_def)
  have e: "spec_weightedSum exact criteria_half scores_1_8 = 19 / 10"
    by (simp add: spec_weightedSum_def add_term_def matched_def weight_table_def
        weight_of_def criteria_half_def scores_1_8_def exact_def)
  have b: "spec_weightedSum binary64 criteria_AB scores_AB = 76"
    "spec_weightedSum binary64 criteria_half scores_AB = 38"
    by (simp_all add: spec_weightedSum_def add_term_def matched_def weight_table_def
        weight_of_def criteria_AB_def criteria_half_def scores_AB_def)
  have l1: "fst (score_loop_js criteria_AB scores_AB (Some 0, 0)) = Some 76"
    using normalization_round_trip [of criteria_AB scores_AB] w(1) j(1) by simp
  have l2: "fst (score_loop_js criteria_half scores_AB (Some 0, 0)) = Some 38"
    using normalization_round_trip [of criteria_half scores_AB] w(2) j(2) b(2) by simp
  have e2: "computeTotalScore exact criteria_half scores_1_8 = 19 / 5"
    using normalization_round_trip [of criteria_half scores_1_8] w(3) e by simp
  from j w(1,2) b e l1 l2 e2 show ?thesis by simp
qed

text \<open>
  The total can fail to be a finite number where the weighted sum is one: with two
  criteria of weight 25 and the score \<open>2 ^ 1019\<close> for each, every step of the loop is
  exact and ends with \<open>2 ^ 1018\<close>, and the multiplication by 100 overflows.
\<close>

lemma normalization_overflow_example:
  "spec_totalWeight criteria_quarter scores_huge = 50
   \<and> fst (score_loop_js criteria_quarter scores_huge (Some 0, 0)) = Some (2 ^ 1018)
   \<and> computeTotalScore_js criteria_quarter scores_huge = None"
proof -
  have r: "binary64 (of_int m * 2 powi j) = of_int m * 2 powi j"
    if "\<bar>m\<bar> < 2 ^ 53" "- 1074 \<le> j" for m j
    using that by (rule binary64_representable)
  have p: "js_number (2 ^ 1019 * 25) = Some (2 ^ 1019 * 25)"
    using r [of 25 1019] by (intro js_number_finite) simp_all
  have d: "js_number (2 ^ 1019 * 25 / 100) = Some (2 ^ 1017)"
    using r [of 1 1017] js_number_finite [of "2 ^ 1017"] by simp
  have a1: "js_number (0 + 2 ^ 1017) = Some (2 ^ 1017)"
    using r [of 1 1017] js_number_finite [of "2 ^ 1017"] by simp
  have a2: "js_number (2 ^ 1017 + 2 ^ 1017) = Some (2 ^ 1018)"
    using r [of 1 1018] js_number_finite [of "2 ^ 1018"] by simp
  have o: "js_number (2 ^ 1018 * 100) = None"
    by (rule js_number_overflow) simp
  have loop: "score_loop_js criteria_quarter scores_huge (Some 0, 0) = (Some (2 ^ 1018), 50)"
    using p d a1 a2
    by (simp add: criteria_quarter_def scores_huge_def js_add_def js_mul_def js_div_def)
  have w: "spec_totalWeight criteria_quarter scores_huge = 50"
    by (simp add: spec_totalWeight_def matched_def weight_table_def weight_of_def
        criteria_quarter_def scores_huge_def)
  from loop o w show ?thesis
    by (simp add: computeTotalScore_js_def js_mul_def js_div_def)
qed

section \<open>Properties of \<^verbatim>\<open>submitEvaluation\<close>\<close>


lemma find_map_pres:
  "(\<And>x. P (f x) = P x) \<Longrightarrow> find P (map f xs) = map_option f (find P xs)"
  by (induction xs) auto

lemma filter_map_pres:
  "(\<And>x. P (f x) = P x) \<Longrightarrow> filter P (map f xs) = map f (filter P xs)"
  by (induction xs) auto

lemma find_append_case:
  "find P (xs @ ys) = (case find P xs of None \<Rightarrow> find P ys | Some x \<Rightarrow> Some x)"
  by (induction xs) auto

lemma find_Some_in: "find P xs = Some x \<Longrightarrow> x \<in> set xs \<and> P x"
  by (induction xs) (auto split: if_splits)

lemma find_distinct_key:
  "distinct (map g xs) \<Longrightarrow> x \<in> set xs \<Longrightarrow> find (\<lambda>y. g y = g x) xs = Some x"
  by (induction xs) (auto simp: image_iff)

lemma filter_distinct_key:
  "distinct (map g xs) \<Longrightarrow> x \<in> set xs \<Longrightarrow> filter (\<lambda>y. g y = g x) xs = [x]"
  by (induction xs) (auto simp: image_iff intro!: filter_False)

lemma es_key_score_row [simp]: "es_key (score_row eid sc) = (eid, criteriaId sc)"
  by (simp add: es_key_def score_row_def)

lemma es_evaluationId_score_row [simp]: "es_evaluationId (score_row eid sc) = eid"
  by (simp add: score_row_def)

lemma es_criteriaId_score_row [simp]: "es_criteriaId (score_row eid sc) = criteriaId sc"
  by (simp add: score_row_def)

lemma distinct_score_rows:
  "distinct (map es_key (map (score_row eid) scs)) \<longleftrightarrow> distinct (map criteriaId scs)"
  by (induction scs) (auto simp: image_iff)

lemma createMany_ok:
  assumes "distinct (map criteriaId scs)"
    and "\<forall>sc \<in> set scs. criteriaId sc \<in> c_id ` set (evaluationCriteria s)"
    and "eid \<in> e_id ` set (evaluations s)"
    and "\<forall>r \<in> set (evaluationScores s). es_evaluationId r \<noteq> eid"
  shows "evaluationScore_createMany s (map (score_row eid) scs) =
           Inr (s\<lparr>evaluationScores := evaluationScores s @ map (score_row eid) scs\<rparr>)"
proof -
  have k: "\<not> (\<exists>r \<in> set (map (score_row eid) scs). es_key r \<in> es_key ` set (evaluationScores s))"
    using assms(4) by (auto simp: es_key_def)
  have f: "\<not> (\<exists>r \<in> set (map (score_row eid) scs).
                es_evaluationId r \<notin> e_id ` set (evaluations s)
                \<or> es_criteriaId r \<notin> c_id ` set (evaluationCriteria s))"
    using assms(2,3) by auto
  show ?thesis
    unfolding evaluationScore_createMany_def
    using k f assms(1) by (simp only: distinct_score_rows if_False simp_thms)
qed

lemma createMany_repeated:
  "\<not> distinct (map es_key rows) \<Longrightarrow> evaluationScore_createMany s rows = Inl P2002"
  by (simp add: evaluationScore_createMany_def)

lemma createMany_dangling:
  "\<exists>r \<in> set rows. es_criteriaId r \<notin> c_id ` set (evaluationCriteria s)
     \<Longrightarrow> \<exists>err. evaluationScore_createMany s rows = Inl err"
  by (auto simp: evaluationScore_createMany_def)

lemma createMany_bad:
  assumes "(\<exists>sc \<in> set scs. criteriaId sc \<notin> c_id ` set (evaluationCriteria s))
           \<or> \<not> distinct (map criteriaId scs)"
  shows "\<exists>err. evaluationScore_createMany s (map (score_row eid) scs) = Inl err"
proof (cases "distinct (map criteriaId scs)")
  case False
  then have "\<not> distinct (map es_key (map (score_row eid) scs))"
    using distinct_score_rows [of eid scs] by blast
  then show ?thesis
    by (blast dest: createMany_repeated)
next
  case True
  with assms obtain sc where "sc \<in> set scs" "criteriaId sc \<notin> c_id ` set (evaluationCriteria s)"
    by blast
  then have "\<exists>r \<in> set (map (score_row eid) scs).
                es_criteriaId r \<notin> c_id ` set (evaluationCriteria s)"
    by auto
  then show ?thesis
    by (rule createMany_dangling)
qed

lemma criteria_deleteMany [simp]:
  "evaluationCriteria (evaluationScore_deleteMany s eid) = evaluationCriteria s"
  by (simp add: evaluationScore_deleteMany_def)

lemma criteria_update:
  "evaluation_update s eid t c = Inr (ev, s') \<Longrightarrow> evaluationCriteria s' = evaluationCriteria s"
  by (auto simp: evaluation_update_def split: option.splits)

lemma criteria_create:
  "evaluation_create s row = Inr (ev, s') \<Longrightarrow> evaluationCriteria s' = evaluationCriteria s"
  by (auto simp: evaluation_create_def split: if_splits)

lemma tx_bad_finite:
  assumes "(\<exists>sc \<in> set scs. criteriaId sc \<notin> c_id ` set (evaluationCriteria s))
           \<or> \<not> distinct (map criteriaId scs)"
  shows "\<exists>err. submitEvaluation_tx uuid uid sid scs (Some t) c s = Inl err"
proof (cases "evaluation_findUnique s sid uid")
  case None
  show ?thesis
  proof (cases "evaluation_create s
               \<lparr>e_id = uuid, e_submissionId = sid, e_evaluatorId = uid,
                e_totalScore = t, e_comments = c\<rparr>")
    case (Inl err)
    with None show ?thesis by (simp add: submitEvaluation_tx_def)
  next
    case (Inr p)
    obtain ev s1 where p: "p = (ev, s1)" by (cases p)
    with Inr have "evaluationCriteria s1 = evaluationCriteria s"
      by (auto dest: criteria_create)
    with assms obtain err where
      "evaluationScore_createMany s1 (map (score_row (e_id ev)) scs) = Inl err"
      using createMany_bad [of scs s1 "e_id ev"] by auto
    with None Inr p show ?thesis by (simp add: submitEvaluation_tx_def)
  qed
next
  case (Some e0)
  show ?thesis
  proof (cases "evaluation_update (evaluationScore_deleteMany s (e_id e0)) (e_id e0) t c")
    case (Inl err)
    with Some show ?thesis by (simp add: submitEvaluation_tx_def)
  next
    case (Inr p)
    obtain ev s1 where p: "p = (ev, s1)" by (cases p)
    with Inr have "evaluationCriteria s1 = evaluationCriteria s"
      by (auto dest: criteria_update)
    with assms obtain err where
      "evaluationScore_createMany s1 (map (score_row (e_id ev)) scs) = Inl err"
      using createMany_bad [of scs s1 "e_id ev"] by auto
    with Some Inr p show ?thesis by (simp add: submitEvaluation_tx_def)
  qed
qed

lemma tx_not_finite: "submitEvaluation_tx uuid uid sid scs None c s = Inl Thrown"
  by (simp add: submitEvaluation_tx_def split: option.splits)

lemma tx_bad:
  assumes "(\<exists>sc \<in> set scs. criteriaId sc \<notin> c_id ` set (evaluationCriteria s))
           \<or> \<not> distinct (map criteriaId scs)"
  shows "\<exists>err. submitEvaluation_tx uuid uid sid scs tot c s = Inl err"
proof (cases tot)
  case None
  then show ?thesis by (simp add: tx_not_finite)
next
  case (Some t)
  with assms show ?thesis by (simp add: tx_bad_finite)
qed

lemma submitEvaluation_bad:
  assumes "body_scores body = Some scs"
    and "(\<exists>sc \<in> set scs. criteriaId sc \<notin> c_id ` set (evaluationCriteria s))
           \<or> \<not> distinct (map criteriaId scs)"
  shows "is_error (fst (submitEvaluation uuid s user body))
         \<and> snd (submitEvaluation uuid s user body) = s"
proof (cases user)
  case None
  then show ?thesis by (simp add: submitEvaluation_def)
next
  case (Some u)
  show ?thesis
  proof (cases "body_submissionId body")
    case None
    with Some show ?thesis by (simp add: submitEvaluation_def)
  next
    case (Some sid)
    from tx_bad [OF assms(2)] obtain err where
      "submitEvaluation_tx uuid (userId u) sid scs
         (computeTotalScore_js (evaluationCriteria s) scs) (body_comments body) s = Inl err"
      by blast
    with Some \<open>user = Some u\<close> assms(1) show ?thesis
      by (simp add: submitEvaluation_def prisma_transaction_def)
  qed
qed

lemma e_id_update_fields [simp]: "e_id (update_fields t c e) = e_id e"
  by (simp add: update_fields_def)

lemma pair_update_fields [simp]:
  "e_submissionId (update_fields t c e) = e_submissionId e"
  "e_evaluatorId (update_fields t c e) = e_evaluatorId e"
  by (simp_all add: update_fields_def)

lemma update_fields_twice [simp]:
  "update_fields t c (update_fields t c e) = update_fields t c e"
  by (cases c) (simp_all add: update_fields_def)

lemma update_fields_total [simp]: "e_totalScore (update_fields t c e) = t"
  by (simp add: update_fields_def)

lemma ids_after_update:
  "map e_id (map (\<lambda>e'. if e_id e' = eid then update_fields t c e' else e') xs) = map e_id xs"
  by (induction xs) auto

lemma id_set_after_update:
  "e_id ` set (map (\<lambda>e'. if e_id e' = eid then update_fields t c e' else e') xs)
     = e_id ` set xs"
  using ids_after_update [of eid t c xs] by (metis set_map)

lemma tx_existing:
  assumes found: "evaluation_findUnique s sid uid = Some e0"
    and pk: "distinct (map e_id (evaluations s))"
    and dist: "distinct (map criteriaId scs)"
    and known: "\<forall>sc \<in> set scs. criteriaId sc \<in> c_id ` set (evaluationCriteria s)"
  shows "submitEvaluation_tx uuid uid sid scs (Some t) c s =
           Inr (update_fields t c e0, replaced (e_id e0) t c scs s)"
proof -
  let ?eid = "e_id e0"
  let ?s0 = "evaluationScore_deleteMany s ?eid"
  let ?s1 = "?s0\<lparr>evaluations :=
               map (\<lambda>e'. if e_id e' = ?eid then update_fields t c e' else e') (evaluations ?s0)\<rparr>"
  from found have mem: "e0 \<in> set (evaluations s)"
    by (auto simp: evaluation_findUnique_def dest: find_Some_in)
  with pk have "find (\<lambda>e. e_id e = ?eid) (evaluations s) = Some e0"
    by (rule find_distinct_key)
  then have upd: "evaluation_update ?s0 ?eid t c = Inr (update_fields t c e0, ?s1)"
    by (simp add: evaluation_update_def evaluationScore_deleteMany_def)
  have "?eid \<in> e_id ` set (evaluations ?s1)"
    using mem by (simp add: evaluationScore_deleteMany_def id_set_after_update del: set_map)
  moreover have "\<forall>r \<in> set (evaluationScores ?s1). es_evaluationId r \<noteq> ?eid"
    by (simp add: evaluationScore_deleteMany_def)
  moreover have "\<forall>sc \<in> set scs. criteriaId sc \<in> c_id ` set (evaluationCriteria ?s1)"
    using known by (simp add: evaluationScore_deleteMany_def)
  ultimately have "evaluationScore_createMany ?s1 (map (score_row ?eid) scs) =
      Inr (?s1\<lparr>evaluationScores := evaluationScores ?s1 @ map (score_row ?eid) scs\<rparr>)"
    using dist by (intro createMany_ok) 
  with found upd show ?thesis
    by (simp add: submitEvaluation_tx_def replaced_def evaluationScore_deleteMany_def)
qed

lemma tx_fresh:
  assumes none: "evaluation_findUnique s sid uid = None"
    and fresh: "uuid \<notin> e_id ` set (evaluations s)"
    and sub: "sid \<in> set (submissions s)"
    and fk: "\<forall>r \<in> set (evaluationScores s). es_evaluationId r \<in> e_id ` set (evaluations s)"
    and dist: "distinct (map criteriaId scs)"
    and known: "\<forall>sc \<in> set scs. criteriaId sc \<in> c_id ` set (evaluationCriteria s)"
  shows "submitEvaluation_tx uuid uid sid scs (Some t) c s =
           Inr (\<lparr>e_id = uuid, e_submissionId = sid, e_evaluatorId = uid,
                 e_totalScore = t, e_comments = c\<rparr>,
                created \<lparr>e_id = uuid, e_submissionId = sid, e_evaluatorId = uid,
                 e_totalScore = t, e_comments = c\<rparr> scs s)"
proof -
  let ?row = "\<lparr>e_id = uuid, e_submissionId = sid, e_evaluatorId = uid,
                 e_totalScore = t, e_comments = c\<rparr>"
  let ?s1 = "s\<lparr>evaluations := evaluations s @ [?row]\<rparr>"
  have cr: "evaluation_create s ?row = Inr (?row, ?s1)"
    using none fresh sub by (simp add: evaluation_create_def)
  have "uuid \<in> e_id ` set (evaluations ?s1)"
    by simp
  moreover have "\<forall>r \<in> set (evaluationScores ?s1). es_evaluationId r \<noteq> uuid"
    using fk fresh by auto
  moreover have "\<forall>sc \<in> set scs. criteriaId sc \<in> c_id ` set (evaluationCriteria ?s1)"
    using known by simp
  ultimately have "evaluationScore_createMany ?s1 (map (score_row uuid) scs) =
      Inr (?s1\<lparr>evaluationScores := evaluationScores ?s1 @ map (score_row uuid) scs\<rparr>)"
    using dist by (intro createMany_ok)
  with none cr show ?thesis
    by (simp add: submitEvaluation_tx_def created_def)
qed

lemma criteria_replaced [simp]:
  "evaluationCriteria (replaced eid t c scs s) = evaluationCriteria s"
  by (simp add: replaced_def)

lemma criteria_created [simp]:
  "evaluationCriteria (created row scs s) = evaluationCriteria s"
  by (simp add: created_def)

lemma map_update_twice:
  "map (\<lambda>e'. if e_id e' = eid then update_fields t c e' else e')
     (map (\<lambda>e'. if e_id e' = eid then update_fields t c e' else e') xs)
   = map (\<lambda>e'. if e_id e' = eid then update_fields t c e' else e') xs"
  by (induction xs) auto

lemma replaced_twice: "replaced eid t c scs (replaced eid t c scs s) = replaced eid t c scs s"
  by (simp add: replaced_def map_update_twice del: map_map)

lemma replaced_again:
  assumes found: "evaluation_findUnique s sid uid = Some e0"
    and pk: "distinct (map e_id (evaluations s))"
    and dist: "distinct (map criteriaId scs)"
    and known: "\<forall>sc \<in> set scs. criteriaId sc \<in> c_id ` set (evaluationCriteria s)"
  shows "submitEvaluation_tx uuid2 uid sid scs (Some t) c (replaced (e_id e0) t c scs s) =
           Inr (update_fields t c e0, replaced (e_id e0) t c scs s)"
proof -
  let ?s1 = "replaced (e_id e0) t c scs s"
  let ?f = "\<lambda>e'. if e_id e' = e_id e0 then update_fields t c e' else e'"
  have "find (\<lambda>e. e_submissionId e = sid \<and> e_evaluatorId e = uid) (map ?f (evaluations s))
          = map_option ?f (find (\<lambda>e. e_submissionId e = sid \<and> e_evaluatorId e = uid) (evaluations s))"
    by (rule find_map_pres) simp
  with found have found1: "evaluation_findUnique ?s1 sid uid = Some (update_fields t c e0)"
    by (simp add: evaluation_findUnique_def replaced_def)
  have pk1: "distinct (map e_id (evaluations ?s1))"
    using pk by (simp add: replaced_def ids_after_update del: map_map)
  have known1: "\<forall>sc \<in> set scs. criteriaId sc \<in> c_id ` set (evaluationCriteria ?s1)"
    using known by simp
  from tx_existing [OF found1 pk1 dist known1, of uuid2 t c]
  show ?thesis by (simp add: replaced_twice)
qed

lemma created_again:
  assumes none: "evaluation_findUnique s sid uid = None"
    and fresh: "uuid \<notin> e_id ` set (evaluations s)"
    and pk: "distinct (map e_id (evaluations s))"
    and fk: "\<forall>r \<in> set (evaluationScores s). es_evaluationId r \<in> e_id ` set (evaluations s)"
    and dist: "distinct (map criteriaId scs)"
    and known: "\<forall>sc \<in> set scs. criteriaId sc \<in> c_id ` set (evaluationCriteria s)"
    and row: "row = \<lparr>e_id = uuid, e_submissionId = sid, e_evaluatorId = uid,
                 e_totalScore = t, e_comments = c\<rparr>"
  shows "submitEvaluation_tx uuid2 uid sid scs (Some t) c (created row scs s) =
           Inr (row, created row scs s)"
proof -
  let ?s1 = "created row scs s"
  have found1: "evaluation_findUnique ?s1 sid uid = Some row"
    using none row by (simp add: evaluation_findUnique_def created_def find_append_case)
  have pk1: "distinct (map e_id (evaluations ?s1))"
    using pk fresh row by (simp add: created_def)
  have known1: "\<forall>sc \<in> set scs. criteriaId sc \<in> c_id ` set (evaluationCriteria ?s1)"
    using known by simp
  have same: "update_fields t c row = row"
    using row by (cases c) (simp_all add: update_fields_def)
  have "filter (\<lambda>r. es_evaluationId r \<noteq> uuid) (evaluationScores s) = evaluationScores s"
    using fk fresh by (intro filter_True) auto
  moreover have "map (\<lambda>e'. if e_id e' = uuid then update_fields t c e' else e') (evaluations s)
                   = evaluations s"
    using fresh by (intro map_idI) auto
  ultimately have "replaced (e_id row) t c scs ?s1 = ?s1"
    using row same by (simp add: replaced_def created_def)
  with tx_existing [OF found1 pk1 dist known1, of uuid2 t c] same
  show ?thesis by simp
qed

lemma filter_score_rows_same [simp]:
  "filter (\<lambda>r. es_evaluationId r = eid) (map (score_row eid) scs) = map (score_row eid) scs"
  by (induction scs) auto

lemma scores_of_replaced:
  "scores_of (replaced eid t c scs s) eid = map (score_row eid) scs"
proof -
  have "filter (\<lambda>r. es_evaluationId r = eid)
          (filter (\<lambda>r. es_evaluationId r \<noteq> eid) (evaluationScores s)) = []"
    by (induction "evaluationScores s") auto
  then show ?thesis
    by (simp add: scores_of_def replaced_def)
qed

lemma evaluations_of_replaced:
  assumes found: "evaluation_findUnique s sid uid = Some e0"
    and uq: "distinct (map (\<lambda>e. (e_submissionId e, e_evaluatorId e)) (evaluations s))"
  shows "evaluations_of (replaced (e_id e0) t c scs s) sid uid = [update_fields t c e0]"
proof -
  let ?g = "\<lambda>e. (e_submissionId e, e_evaluatorId e)"
  let ?f = "\<lambda>e'. if e_id e' = e_id e0 then update_fields t c e' else e'"
  from found have mem: "e0 \<in> set (evaluations s)" and key: "?g e0 = (sid, uid)"
    by (auto simp: evaluation_findUnique_def dest: find_Some_in)
  from uq mem have "filter (\<lambda>y. ?g y = ?g e0) (evaluations s) = [e0]"
    by (rule filter_distinct_key)
  with key have one: "filter (\<lambda>e. e_submissionId e = sid \<and> e_evaluatorId e = uid) (evaluations s) = [e0]"
    by simp
  have "filter (\<lambda>e. e_submissionId e = sid \<and> e_evaluatorId e = uid) (map ?f (evaluations s))
          = map ?f (filter (\<lambda>e. e_submissionId e = sid \<and> e_evaluatorId e = uid) (evaluations s))"
    by (rule filter_map_pres) simp
  with one show ?thesis
    by (simp add: evaluations_of_def replaced_def)
qed

lemma scores_of_created:
  assumes "e_id row \<notin> e_id ` set (evaluations s)"
    and "\<forall>r \<in> set (evaluationScores s). es_evaluationId r \<in> e_id ` set (evaluations s)"
  shows "scores_of (created row scs s) (e_id row) = map (score_row (e_id row)) scs"
proof -
  have "\<forall>r \<in> set (evaluationScores s). es_evaluationId r \<noteq> e_id row"
    using assms by metis
  then have "filter (\<lambda>r. es_evaluationId r = e_id row) (evaluationScores s) = []"
    by (intro filter_False) simp
  then show ?thesis
    by (simp add: scores_of_def created_def)
qed

lemma evaluations_of_created:
  assumes "evaluation_findUnique s sid uid = None"
    and "e_submissionId row = sid" "e_evaluatorId row = uid"
  shows "evaluations_of (created row scs s) sid uid = [row]"
proof -
  have "filter (\<lambda>e. e_submissionId e = sid \<and> e_evaluatorId e = uid) (evaluations s) = []"
    using assms(1) by (intro filter_False) (auto simp: evaluation_findUnique_def find_None_iff)
  with assms(2,3) show ?thesis
    by (simp add: evaluations_of_def created_def)
qed

lemma submitEvaluation_run:
  assumes "body_submissionId body = Some sid" "sid \<noteq> []" "body_scores body = Some scs"
    and "submitEvaluation_tx uuid (userId u) sid scs
           (computeTotalScore_js (evaluationCriteria s) scs) (body_comments body) s = Inr (ev, s')"
  shows "submitEvaluation uuid s (Some u) body =
           (sendSuccess ev ''Evaluation submitted successfully'' OK, s')"
  using assms by (simp add: submitEvaluation_def prisma_transaction_def)

lemma submitEvaluation_not_finite:
  assumes "body_submissionId body = Some sid" "sid \<noteq> []" "body_scores body = Some scs"
    and "computeTotalScore_js (evaluationCriteria s) scs = None"
  shows "submitEvaluation uuid s (Some u) body =
           (sendError ''Failed to submit evaluation'' INTERNAL_SERVER_ERROR, s)"
  using assms by (simp add: submitEvaluation_def prisma_transaction_def tx_not_finite)

subsection \<open>Submitting the same evaluation twice\<close>

text \<open>
  C1, amended: for every store that satisfies the constraints of the evaluation tables,
  every evaluator, every existing submission id and every list of pairs whose criterion
  ids are pairwise distinct and all known, two calls in sequence with the same input
  both succeed and return the same evaluation, the second leaves the rows of the store
  as the first left them (the timestamp columns, which it sets again, are not in the
  model), that store holds exactly one \<^verbatim>\<open>Evaluation\<close> row for the pair, and the
  \<^verbatim>\<open>EvaluationScore\<close> rows of that evaluation are the rows of the N submitted pairs, N
  of them, under the total computed from them. The total has to be a finite number:
  a total that overflows is not written, and the call fails.
\<close>

theorem submitEvaluation_twice:
  assumes ok: "evaluation_integrity s"
    and fresh: "uuid1 \<notin> e_id ` set (evaluations s)"
    and sid: "body_submissionId body = Some sid" "sid \<noteq> []" "sid \<in> set (submissions s)"
    and scs: "body_scores body = Some scs"
    and dist: "distinct (map criteriaId scs)"
    and known: "\<forall>sc \<in> set scs. criteriaId sc \<in> c_id ` set (evaluationCriteria s)"
    and finite_total: "computeTotalScore_js (evaluationCriteria s) scs = Some t"
  shows "\<exists>ev s1.
           submitEvaluation uuid1 s (Some u) body =
             (sendSuccess ev ''Evaluation submitted successfully'' OK, s1)
           \<and> submitEvaluation uuid2 s1 (Some u) body =
             (sendSuccess ev ''Evaluation submitted successfully'' OK, s1)
           \<and> evaluations_of s1 sid (userId u) = [ev]
           \<and> scores_of s1 (e_id ev) = map (score_row (e_id ev)) scs
           \<and> length (scores_of s1 (e_id ev)) = length scs
           \<and> e_totalScore ev = t"
proof -
  let ?c = "body_comments body"
  from ok have pk: "distinct (map e_id (evaluations s))"
    and uq: "distinct (map (\<lambda>e. (e_submissionId e, e_evaluatorId e)) (evaluations s))"
    and fk: "\<forall>r \<in> set (evaluationScores s). es_evaluationId r \<in> e_id ` set (evaluations s)"
    by (simp_all add: evaluation_integrity_def)
  show ?thesis
  proof (cases "evaluation_findUnique s sid (userId u)")
    case None
    let ?row = "\<lparr>e_id = uuid1, e_submissionId = sid, e_evaluatorId = userId u,
                  e_totalScore = t, e_comments = ?c\<rparr>"
    let ?s1 = "created ?row scs s"
    have first: "submitEvaluation uuid1 s (Some u) body =
                   (sendSuccess ?row ''Evaluation submitted successfully'' OK, ?s1)"
      using tx_fresh [OF None fresh sid(3) fk dist known, of t ?c] finite_total
      by (intro submitEvaluation_run [OF sid(1,2) scs]) simp
    have second: "submitEvaluation uuid2 ?s1 (Some u) body =
                   (sendSuccess ?row ''Evaluation submitted successfully'' OK, ?s1)"
      using created_again [OF None fresh pk fk dist known refl, of uuid2 t ?c] finite_total
      by (intro submitEvaluation_run [OF sid(1,2) scs]) simp
    have "evaluations_of ?s1 sid (userId u) = [?row]"
      by (rule evaluations_of_created [OF None]) simp_all
    moreover have "scores_of ?s1 (e_id ?row) = map (score_row (e_id ?row)) scs"
      using fresh fk by (intro scores_of_created) simp_all
    ultimately show ?thesis
      using first second by (intro exI [of _ ?row] exI [of _ ?s1]) simp
  next
    case (Some e0)
    let ?ev = "update_fields t ?c e0"
    let ?s1 = "replaced (e_id e0) t ?c scs s"
    have first: "submitEvaluation uuid1 s (Some u) body =
                   (sendSuccess ?ev ''Evaluation submitted successfully'' OK, ?s1)"
      using tx_existing [OF Some pk dist known, of uuid1 t ?c] finite_total
      by (intro submitEvaluation_run [OF sid(1,2) scs]) simp
    have second: "submitEvaluation uuid2 ?s1 (Some u) body =
                   (sendSuccess ?ev ''Evaluation submitted successfully'' OK, ?s1)"
      using replaced_again [OF Some pk dist known, of uuid2 t ?c] finite_total
      by (intro submitEvaluation_run [OF sid(1,2) scs]) simp
    have "evaluations_of ?s1 sid (userId u) = [?ev]"
      by (rule evaluations_of_replaced [OF Some uq])
    moreover have "scores_of ?s1 (e_id ?ev) = map (score_row (e_id ?ev)) scs"
      by (simp add: scores_of_replaced)
    ultimately show ?thesis
      using first second by (intro exI [of _ ?ev] exI [of _ ?s1]) simp
  qed
qed

lemmas eval_defs = submitEvaluation_def prisma_transaction_def submitEvaluation_tx_def
  evaluation_findUnique_def evaluation_create_def evaluation_update_def
  evaluationScore_deleteMany_def evaluationScore_createMany_def score_row_def es_key_def
  update_fields_def evaluations_of_def scores_of_def evaluation_integrity_def
  evaluation_store_def empty_store_def evaluator1_def body_AB_def body_gone_def
  criteria_AB_def scores_AB_def scores_gone_def

theorem submitEvaluation_twice_witness:
  "evaluation_integrity evaluation_store
   \<and> ''e1'' \<notin> e_id ` set (evaluations evaluation_store)
   \<and> body_submissionId body_AB = Some ''sub1'' \<and> ''sub1'' \<in> set (submissions evaluation_store)
   \<and> body_scores body_AB = Some scores_AB
   \<and> distinct (map criteriaId scores_AB)
   \<and> computeTotalScore_js (evaluationCriteria evaluation_store) scores_AB = Some 76
   \<and> (\<exists>ev s1.
         submitEvaluation ''e1'' evaluation_store (Some evaluator1) body_AB =
           (sendSuccess ev ''Evaluation submitted successfully'' OK, s1)
         \<and> submitEvaluation ''e2'' s1 (Some evaluator1) body_AB =
           (sendSuccess ev ''Evaluation submitted successfully'' OK, s1)
         \<and> evaluations_of s1 ''sub1'' (userId evaluator1) = [ev]
         \<and> length (scores_of s1 (e_id ev)) = 2
         \<and> e_totalScore ev = 76)"
proof -
  have h: "evaluation_integrity evaluation_store"
    "''e1'' \<notin> e_id ` set (evaluations evaluation_store)"
    "body_submissionId body_AB = Some ''sub1''" "''sub1'' \<noteq> []"
    "''sub1'' \<in> set (submissions evaluation_store)"
    "body_scores body_AB = Some scores_AB"
    "distinct (map criteriaId scores_AB)"
    "\<forall>sc \<in> set scores_AB. criteriaId sc \<in> c_id ` set (evaluationCriteria evaluation_store)"
    by (simp_all add: eval_defs)
  have t: "computeTotalScore_js (evaluationCriteria evaluation_store) scores_AB = Some 76"
    by (simp add: eval_defs js_defs)
  have n: "length scores_AB = 2"
    by (simp add: scores_AB_def)
  from submitEvaluation_twice [OF h t, of evaluator1 "''e2''"] h t n show ?thesis
    by auto
qed

text \<open>
  C1 as stated, for every list of pairs, fails: with a pair whose criterion is not in
  the criteria table (the total computation skips such a pair, the insertion does not)
  both calls answer with the failure and no \<^verbatim>\<open>Evaluation\<close> row exists afterwards.
\<close>

theorem submitEvaluation_twice_counterexample:
  "submitEvaluation ''e1'' evaluation_store (Some evaluator1) body_gone =
     (sendError ''Failed to submit evaluation'' INTERNAL_SERVER_ERROR, evaluation_store)
   \<and> submitEvaluation ''e2'' evaluation_store (Some evaluator1) body_gone =
     (sendError ''Failed to submit evaluation'' INTERNAL_SERVER_ERROR, evaluation_store)
   \<and> evaluations_of evaluation_store ''sub1'' ''ev1'' = []
   \<and> body_scores body_gone = Some scores_gone \<and> length scores_gone = 2"
  by (simp add: eval_defs js_defs)

text \<open>
  A total that overflows: with the weights 60 and 40 and the score \<open>2 ^ 1019\<close> the
  first multiplication gives \<^verbatim>\<open>Infinity\<close>; the call answers with the failure and the
  store is as it was.
\<close>

lemma submitEvaluation_overflow_example:
  "computeTotalScore_js (evaluationCriteria evaluation_store) scores_huge = None
   \<and> submitEvaluation ''e1'' evaluation_store (Some evaluator1) body_huge =
       (sendError ''Failed to submit evaluation'' INTERNAL_SERVER_ERROR, evaluation_store)"
proof -
  have "js_number (2 ^ 1019 * 60) = None"
    by (rule js_number_overflow) simp
  then have none: "computeTotalScore_js (evaluationCriteria evaluation_store) scores_huge = None"
    by (simp add: evaluation_store_def empty_store_def criteria_AB_def scores_huge_def
        computeTotalScore_js_def js_add_def js_mul_def js_div_def)
  have "body_submissionId body_huge = Some ''sub1''" "''sub1'' \<noteq> []"
    "body_scores body_huge = Some scores_huge"
    by (simp_all add: body_huge_def)
  from this none
  have "submitEvaluation ''e1'' evaluation_store (Some evaluator1) body_huge =
       (sendError ''Failed to submit evaluation'' INTERNAL_SERVER_ERROR, evaluation_store)"
    by (rule submitEvaluation_not_finite)
  with none show ?thesis by simp
qed

subsection \<open>Pairs that the store refuses\<close>

lemma createMany_Inr:
  "evaluationScore_createMany s rows = Inr s' \<Longrightarrow>
     s' = s\<lparr>evaluationScores := evaluationScores s @ rows\<rparr>"
  by (simp add: evaluationScore_createMany_def split: if_splits)

lemma tx_Inr_rows:
  assumes "submitEvaluation_tx uuid uid sid scs t c s = Inr (ev, s')"
  shows "\<exists>kept. evaluationScores s' = kept @ map (score_row (e_id ev)) scs"
proof -
  from assms obtain s1 where
    "evaluationScore_createMany s1 (map (score_row (e_id ev)) scs) = Inr s'"
    by (auto simp: submitEvaluation_tx_def split: sum.splits option.splits)
  then have "evaluationScores s' = evaluationScores s1 @ map (score_row (e_id ev)) scs"
    by (auto dest: createMany_Inr)
  then show ?thesis ..
qed

lemma submitEvaluation_success_tx:
  assumes "submitEvaluation uuid s user body = (sendSuccess ev msg st, s')"
    and "body_scores body = Some scs"
  shows "\<exists>uid sid t c. submitEvaluation_tx uuid uid sid scs t c s = Inr (ev, s')"
  using assms
  by (auto simp: submitEvaluation_def prisma_transaction_def
      split: option.splits if_splits sum.splits prod.splits)

text \<open>
  C10: the rows that a successful call appends to \<^verbatim>\<open>EvaluationScore\<close> are the rows of
  all submitted pairs, one for each, whether or not the pair's criterion was found when
  the total was computed; and a call whose pairs name a criterion that is not in the
  criteria table, or name one criterion twice, answers with an error and leaves the
  store as it was.
\<close>

theorem submitEvaluation_unknown_or_repeated:
  assumes "body_scores body = Some scs"
  shows "(submitEvaluation uuid s user body = (sendSuccess ev msg st, s') \<longrightarrow>
            (\<exists>kept. evaluationScores s' = kept @ map (score_row (e_id ev)) scs))
         \<and> ((\<exists>sc \<in> set scs. criteriaId sc \<notin> c_id ` set (evaluationCriteria s))
              \<or> \<not> distinct (map criteriaId scs) \<longrightarrow>
            is_error (fst (submitEvaluation uuid s user body))
            \<and> snd (submitEvaluation uuid s user body) = s)"
proof (intro conjI impI)
  assume "submitEvaluation uuid s user body = (sendSuccess ev msg st, s')"
  with assms obtain uid sid t c where
    "submitEvaluation_tx uuid uid sid scs t c s = Inr (ev, s')"
    using submitEvaluation_success_tx by blast
  then show "\<exists>kept. evaluationScores s' = kept @ map (score_row (e_id ev)) scs"
    by (rule tx_Inr_rows)
next
  assume bad: "(\<exists>sc \<in> set scs. criteriaId sc \<notin> c_id ` set (evaluationCriteria s))
              \<or> \<not> distinct (map criteriaId scs)"
  from submitEvaluation_bad [OF assms bad]
  show "is_error (fst (submitEvaluation uuid s user body))" 
    and "snd (submitEvaluation uuid s user body) = s"
    by simp_all
qed

theorem submitEvaluation_unknown_or_repeated_witness:
  "body_scores body_gone = Some scores_gone
   \<and> (\<exists>sc \<in> set scores_gone. criteriaId sc \<notin> c_id ` set (evaluationCriteria evaluation_store))
   \<and> is_error (fst (submitEvaluation ''e1'' evaluation_store (Some evaluator1) body_gone))
   \<and> snd (submitEvaluation ''e1'' evaluation_store (Some evaluator1) body_gone) = evaluation_store
   \<and> body_scores body_AB = Some scores_AB
   \<and> submitEvaluation ''e1'' evaluation_store (Some evaluator1) body_AB =
       (sendSuccess
          \<lparr>e_id = ''e1'', e_submissionId = ''sub1'', e_evaluatorId = ''ev1'',
           e_totalScore = 76, e_comments = None\<rparr>
          ''Evaluation submitted successfully'' OK,
        created
          \<lparr>e_id = ''e1'', e_submissionId = ''sub1'', e_evaluatorId = ''ev1'',
           e_totalScore = 76, e_comments = None\<rparr> scores_AB evaluation_store)
   \<and> evaluationScores
        (created
          \<lparr>e_id = ''e1'', e_submissionId = ''sub1'', e_evaluatorId = ''ev1'',
           e_totalScore = 76, e_comments = None\<rparr> scores_AB evaluation_store) =
       map (score_row ''e1'') scores_AB"
proof -
  have g: "body_scores body_gone = Some scores_gone"
    and u: "\<exists>sc \<in> set scores_gone. criteriaId sc \<notin> c_id ` set (evaluationCriteria evaluation_store)"
    and a: "body_scores body_AB = Some scores_AB"
    by (simp_all add: eval_defs)
  let ?ev = "\<lparr>e_id = ''e1'', e_submissionId = ''sub1'', e_evaluatorId = ''ev1'',
           e_totalScore = 76, e_comments = None\<rparr>"
  have run: "submitEvaluation ''e1'' evaluation_store (Some evaluator1) body_AB =
       (sendSuccess ?ev ''Evaluation submitted successfully'' OK,
        created ?ev scores_AB evaluation_store)"
    by (simp add: eval_defs created_def js_defs)
  have rows: "evaluationScores (created ?ev scores_AB evaluation_store) = map (score_row ''e1'') scores_AB"
    by (simp add: created_def eval_defs)
  from submitEvaluation_unknown_or_repeated [OF g, of "''e1''" evaluation_store "Some evaluator1"]
    submitEvaluation_unknown_or_repeated [OF a, of "''e1''" evaluation_store "Some evaluator1"]
    g u a run rows
  show ?thesis by blast
qed

section \<open>Properties of \<^verbatim>\<open>registerTeam\<close>\<close>


lemma count_role_Cons:
  "count_role r (m # ms) = (if role m = r then 1 else 0) + count_role r ms"
  by (simp add: count_role_def)

lemma count_female_Cons:
  "count_female (m # ms) = (if gender m = Female then 1 else 0) + count_female ms"
  by (simp add: count_female_def)

lemma member_loop_char:
  "member_loop ms (a, b, c) =
     (case find member_bad ms of
        Some m \<Rightarrow> Inl (member_answer m)
      | None \<Rightarrow>
          Inr (a + count_role TeamLeader ms, b + count_role SchoolStudent ms,
               c + count_female ms))"
proof (induction ms arbitrary: a b c)
  case Nil
  show ?case by (simp add: count_role_def count_female_def)
next
  case (Cons m ms)
  show ?case
  proof (cases "member_bad m")
    case True
    then show ?thesis
      by (auto simp: member_bad_def leader_bad_def school_bad_def member_answer_def)
  next
    case False
    then have "member_loop (m # ms) (a, b, c) =
        member_loop ms
          (if role m = TeamLeader then a + 1 else a,
           if role m = SchoolStudent then b + 1 else b,
           if gender m = Female then c + 1 else c)"
      by (auto simp: member_bad_def leader_bad_def school_bad_def)
    also have "\<dots> =
        (case find member_bad ms of
           Some m' \<Rightarrow> Inl (member_answer m')
         | None \<Rightarrow>
             Inr (a + count_role TeamLeader (m # ms), b + count_role SchoolStudent (m # ms),
                  c + count_female (m # ms)))"
      by (simp add: Cons.IH count_role_Cons count_female_Cons split: option.splits)
    finally show ?thesis
      using False by simp
  qed
qed

lemma registerTeam_validate_char:
  "registerTeam_validate ms =
     (if length ms \<noteq> 6 then Some wrong_roster_size
      else
        (case find member_bad ms of
           Some m \<Rightarrow> Some (member_answer m)
         | None \<Rightarrow>
             if count_role TeamLeader ms \<noteq> 1 then Some leader_count_invalid
             else if count_role SchoolStudent ms = 0 then Some school_student_count_invalid
             else if count_female ms = 0 then Some no_female_member
             else None))"
  by (simp add: registerTeam_validate_def member_loop_char split: option.splits)

lemma find_first:
  "\<forall>m \<in> set pre. \<not> P m \<Longrightarrow> P x \<Longrightarrow> find P (pre @ x # post) = Some x"
  by (induction pre) auto

lemma leader_first:
  assumes "length ms = 6" and "ms = pre @ l # post"
    and "role l = TeamLeader" "\<not> present (ieeeNumber l)"
    and "\<forall>m \<in> set pre. role m \<noteq> TeamLeader" 
    and "\<forall>m \<in> set pre. \<not> school_bad m"
  shows "registerTeam_validate ms = Some leader_not_ieee"
proof -
  have "\<forall>m \<in> set pre. \<not> member_bad m"
    using assms(5,6) by (simp add: member_bad_def leader_bad_def)
  moreover have "member_bad l" "leader_bad l"
    using assms(3,4) by (simp_all add: member_bad_def leader_bad_def)
  ultimately have "find member_bad ms = Some l"
    unfolding assms(2) by (intro find_first)
  with assms(1) \<open>leader_bad l\<close> show ?thesis
    by (simp add: registerTeam_validate_char member_answer_def)
qed

lemma member_loop_upload_ok:
  assumes "\<forall>m \<in> set ms. \<not> member_bad m"
    and "\<forall>i < length ms. role (ms ! i) = SchoolStudent \<longrightarrow> present (urls (k + i))"
  shows "member_loop_upload urls k ms (a, b, c) =
           Inr (a + count_role TeamLeader ms, b + count_role SchoolStudent ms,
                c + count_female ms)"
  using assms
proof (induction ms arbitrary: k a b c)
  case Nil
  show ?case by (simp add: count_role_def count_female_def)
next
  case (Cons m ms)
  from Cons.prems(1) have ok: "\<not> leader_bad m" "\<not> school_bad m"
    by (simp_all add: member_bad_def)
  from Cons.prems(2) have pdf: "role m = SchoolStudent \<longrightarrow> present (urls k)"
    by fastforce
  have rest: "\<forall>i < length ms. role (ms ! i) = SchoolStudent \<longrightarrow> present (urls (Suc k + i))"
    using Cons.prems(2) by fastforce
  have "member_loop_upload urls k (m # ms) (a, b, c) =
        member_loop_upload urls (k + 1) ms
          (if role m = TeamLeader then a + 1 else a,
           if role m = SchoolStudent then b + 1 else b,
           if gender m = Female then c + 1 else c)"
    using ok pdf by (auto simp: leader_bad_def school_bad_def)
  also have "\<dots> = Inr (a + count_role TeamLeader (m # ms), b + count_role SchoolStudent (m # ms),
                  c + count_female (m # ms))"
    using Cons.IH [of "k + 1"] Cons.prems(1) rest
    by (simp add: count_role_Cons count_female_Cons)
  finally show ?case .
qed

lemma find_None_all: "find P xs = None \<longleftrightarrow> (\<forall>x \<in> set xs. \<not> P x)"
  by (induction xs) auto

lemma school_count_primary:
  assumes "length ms = 6" "count_role TeamLeader ms = 1" "count_female ms \<noteq> 0"
    and "\<forall>m \<in> set ms. \<not> member_bad m"
  shows "registerTeam_validate ms =
           (if count_role SchoolStudent ms = 0 then Some school_student_count_invalid else None)"
proof -
  from assms(4) have "find member_bad ms = None"
    by (simp add: find_None_all)
  with assms(1-3) show ?thesis
    by (simp add: registerTeam_validate_char)
qed

lemma school_count_upload:
  assumes "length ms = 6" "count_role TeamLeader ms = 1" "count_female ms \<noteq> 0"
    and "\<forall>m \<in> set ms. \<not> member_bad m"
    and "\<forall>i < length ms. role (ms ! i) = SchoolStudent \<longrightarrow> present (urls i)"
  shows "registerTeam_upload_validate (Some urls) ms =
           (if count_role SchoolStudent ms \<noteq> 1 then Some school_student_count_invalid_upload
            else None)"
proof -
  have "member_loop_upload urls 0 ms (0, 0, 0) =
          Inr (0 + count_role TeamLeader ms, 0 + count_role SchoolStudent ms,
               0 + count_female ms)"
    using assms(4,5) by (intro member_loop_upload_ok) simp_all
  with assms(1-3) show ?thesis
    by (simp add: registerTeam_upload_validate_def)
qed

lemma filter_single:
  "length (filter P xs) = 1 \<Longrightarrow> \<exists>x. filter P xs = [x] \<and> find P xs = Some x"
proof (induction xs)
  case Nil
  then show ?case by simp
next
  case (Cons y ys)
  show ?case
  proof (cases "P y")
    case True
    with Cons.prems have "filter P ys = []" by simp
    with True show ?thesis by simp
  next
    case False
    with Cons show ?thesis by simp
  qed
qed

lemma validate_None_leader:
  assumes "registerTeam_validate ms = None"
  shows "\<exists>l. filter (\<lambda>m. role m = TeamLeader) ms = [l]
             \<and> find (\<lambda>m. role m = TeamLeader) ms = Some l"
proof -
  from assms have "count_role TeamLeader ms = 1"
    by (simp add: registerTeam_validate_char split: if_splits option.splits)
  then show ?thesis
    unfolding count_role_def by (rule filter_single)
qed

lemma team_create_Inr:
  "team_create tid s body = Inr (t, s1) \<Longrightarrow>
     t = \<lparr>t_id = tid, t_teamName = teamName body, t_theme = theme body\<rparr>
     \<and> s1 = s\<lparr>teams := teams s @ [\<lparr>t_id = tid, t_teamName = teamName body, t_theme = theme body\<rparr>],
               teamMembers := teamMembers s @ map (member_row tid) (members body),
               facultyMentors := facultyMentors s @ [mentor_row tid (facultyMentor body)],
               communityRepresentatives :=
                 communityRepresentatives s
                   @ [representative_row tid (communityRepresentative body)]\<rparr>"
  by (auto simp: team_create_def split: if_splits)

lemma user_create_Inr:
  "user_create s row = Inr s' \<Longrightarrow> s' = s\<lparr>users := users s @ [row]\<rparr>"
  by (auto simp: user_create_def split: if_splits)

lemma registerTeam_tx_Inr:
  assumes tx: "registerTeam_tx hp tid uid body s = Inr (t, s')"
    and leader: "find (\<lambda>m. role m = TeamLeader) (members body) = Some l"
  shows "\<exists>h. hp ''qwert123'' = Some h
           \<and> t = \<lparr>t_id = tid, t_teamName = teamName body, t_theme = theme body\<rparr>
           \<and> s' = registered tid uid h body l s"
proof (cases "team_create tid s body")
  case (Inl err)
  with tx show ?thesis by (simp add: registerTeam_tx_def)
next
  case (Inr p)
  obtain t1 s1 where p: "p = (t1, s1)" by (cases p)
  from Inr p have t1: "t1 = \<lparr>t_id = tid, t_teamName = teamName body, t_theme = theme body\<rparr>"
    and s1: "s1 = s\<lparr>teams := teams s @ [\<lparr>t_id = tid, t_teamName = teamName body, t_theme = theme body\<rparr>],
               teamMembers := teamMembers s @ map (member_row tid) (members body),
               facultyMentors := facultyMentors s @ [mentor_row tid (facultyMentor body)],
               communityRepresentatives :=
                 communityRepresentatives s
                   @ [representative_row tid (communityRepresentative body)]\<rparr>"
    by (auto dest: team_create_Inr)
  show ?thesis
  proof (cases "hp ''qwert123''")
    case None
    with tx Inr p leader show ?thesis by (simp add: registerTeam_tx_def)
  next
    case (Some h)
    show ?thesis
    proof (cases "user_create s1 (leader_account uid (t_id t1) h l)")
      case (Inl err)
      with tx \<open>team_create tid s body = Inr p\<close> p leader Some show ?thesis
        by (simp add: registerTeam_tx_def)
    next
      case (Inr s2)
      then have "s2 = s1\<lparr>users := users s1 @ [leader_account uid (t_id t1) h l]\<rparr>"
        by (rule user_create_Inr)
      with t1 s1 have "s2 = registered tid uid h body l s"
        by (simp add: registered_def)
      moreover from tx \<open>team_create tid s body = Inr p\<close> p leader Some Inr
      have "t = t1" "s' = s2"
        by (simp_all add: registerTeam_tx_def)
      ultimately show ?thesis
        using Some t1 by simp
    qed
  qed
qed

lemma registerTeam_rejected:
  "registerTeam_validate (members body) = Some (msg, st) \<Longrightarrow>
     registerTeam_interleaved hp tid uid others s body = (sendError msg st, s)"
  by (simp add: registerTeam_interleaved_def)

lemma registerTeam_taken:
  "registerTeam_validate (members body) = None \<Longrightarrow>
   team_findUnique s (teamName body) = Some t \<Longrightarrow>
     registerTeam_interleaved hp tid uid others s body =
       (sendError ''Team name already exists'' CONFLICT, s)"
  by (simp add: registerTeam_interleaved_def team_name_taken_def)

lemma registerTeam_thrown:
  "registerTeam_validate (members body) = None \<Longrightarrow>
   team_findUnique s (teamName body) = None \<Longrightarrow>
   registerTeam_tx hp tid uid body (others s) = Inl err \<Longrightarrow>
     registerTeam_interleaved hp tid uid others s body =
       (if err = P2002 then sendError ''Team name already exists'' CONFLICT
        else sendError ''Failed to register team'' INTERNAL_SERVER_ERROR, others s)"
  by (simp add: registerTeam_interleaved_def team_name_taken_def prisma_transaction_def)

lemma registerTeam_committed:
  "registerTeam_validate (members body) = None \<Longrightarrow>
   team_findUnique s (teamName body) = None \<Longrightarrow>
   registerTeam_tx hp tid uid body (others s) = Inr (t, s') \<Longrightarrow>
     registerTeam_interleaved hp tid uid others s body =
       (sendSuccess (t_id t, t_teamName t) ''Team registered successfully'' CREATED, s')"
  by (simp add: registerTeam_interleaved_def prisma_transaction_def)

lemma registerTeam_error_store:
  assumes "is_error (fst (registerTeam_interleaved hp tid uid others s body))"
  shows "snd (registerTeam_interleaved hp tid uid others s body) = s
         \<or> snd (registerTeam_interleaved hp tid uid others s body) = others s"
proof (cases "registerTeam_validate (members body)")
  case (Some a)
  then show ?thesis by (cases a) (simp add: registerTeam_rejected)
next
  case None
  show ?thesis
  proof (cases "team_findUnique s (teamName body)")
    case (Some t)
    with None show ?thesis by (simp add: registerTeam_taken)
  next
    case no: None
    show ?thesis
    proof (cases "registerTeam_tx hp tid uid body (others s)")
      case (Inl err)
      with None no show ?thesis by (simp add: registerTeam_thrown)
    next
      case (Inr p)
      then obtain t s' where "registerTeam_tx hp tid uid body (others s) = Inr (t, s')"
        by (cases p) simp
      with None no assms show ?thesis by (simp add: registerTeam_committed)
    qed
  qed
qed

lemma registerTeam_success:
  assumes "fst (registerTeam_interleaved hp tid uid others s body) = sendSuccess d msg st"
  shows "\<exists>l h. registerTeam_validate (members body) = None
           \<and> team_findUnique s (teamName body) = None
           \<and> filter (\<lambda>m. role m = TeamLeader) (members body) = [l]
           \<and> hp ''qwert123'' = Some h
           \<and> registerTeam_interleaved hp tid uid others s body =
               (sendSuccess (tid, teamName body) ''Team registered successfully'' CREATED,
                registered tid uid h body l (others s))"
proof (cases "registerTeam_validate (members body)")
  case (Some a)
  with assms show ?thesis by (cases a) (simp add: registerTeam_rejected)
next
  case None
  then obtain l where l: "filter (\<lambda>m. role m = TeamLeader) (members body) = [l]"
    "find (\<lambda>m. role m = TeamLeader) (members body) = Some l"
    using validate_None_leader by blast
  show ?thesis
  proof (cases "team_findUnique s (teamName body)")
    case (Some t)
    with None assms show ?thesis by (simp add: registerTeam_taken)
  next
    case no: None
    show ?thesis
    proof (cases "registerTeam_tx hp tid uid body (others s)")
      case (Inl err)
      with None no assms show ?thesis by (simp add: registerTeam_thrown split: if_splits)
    next
      case (Inr p)
      then obtain t s' where tx: "registerTeam_tx hp tid uid body (others s) = Inr (t, s')"
        by (cases p) simp
      from registerTeam_tx_Inr [OF tx l(2)] obtain h where h:
        "hp ''qwert123'' = Some h"
        "t = \<lparr>t_id = tid, t_teamName = teamName body, t_theme = theme body\<rparr>"
        "s' = registered tid uid h body l (others s)"
        by blast
      have "registerTeam_interleaved hp tid uid others s body =
              (sendSuccess (t_id t, t_teamName t) ''Team registered successfully'' CREATED, s')"
        using None no tx by (rule registerTeam_committed)
      with None no l(1) h show ?thesis
        by simp
    qed
  qed
qed

lemma registerTeam_hash_fails:
  assumes "registerTeam_validate (members body) = None"
    and "team_findUnique s (teamName body) = None"
    and "hp ''qwert123'' = None"
  shows "is_error (fst (registerTeam_interleaved hp tid uid others s body))"
proof -
  from assms(1) obtain l where l: "find (\<lambda>m. role m = TeamLeader) (members body) = Some l"
    using validate_None_leader by blast
  have "\<exists>err. registerTeam_tx hp tid uid body (others s) = Inl err"
    using l assms(3) by (cases "team_create tid (others s) body") (auto simp: registerTeam_tx_def)
  then obtain err where "registerTeam_tx hp tid uid body (others s) = Inl err" ..
  with assms(1,2) show ?thesis by (simp add: registerTeam_thrown)
qed

lemma team_create_taken:
  "team_findUnique s (teamName body) \<noteq> None \<Longrightarrow> team_create tid s body = Inl P2002"
  by (simp add: team_create_def)

lemma registerTeam_race_lost:
  assumes "registerTeam_validate (members body) = None"
    and "team_findUnique s (teamName body) = None"
    and "team_findUnique (others s) (teamName body) \<noteq> None"
  shows "registerTeam_interleaved hp tid uid others s body =
           (sendError ''Team name already exists'' CONFLICT, others s)"
proof -
  have "registerTeam_tx hp tid uid body (others s) = Inl P2002"
    using assms(3) by (simp add: registerTeam_tx_def team_create_taken)
  with assms(1,2) show ?thesis by (simp add: registerTeam_thrown)
qed

lemmas roster_defs = member_of_def leader_yes_def leader_true_def leader_no_number_def
  student_def student_no_standard_def others4_def roster_A_def roster_true_def
  roster_two_students_def roster_student_first_def roster_five_def

lemmas answer_defs = leader_not_ieee_def school_standard_missing_def wrong_roster_size_def
  leader_count_invalid_def school_student_count_invalid_def no_female_member_def
  upload_failed_def school_standard_missing_upload_def school_id_pdf_required_def
  school_student_count_invalid_upload_def team_name_taken_def

lemmas register_defs = registerTeam_def registerTeam_interleaved_def registerTeam_validate_def
  team_findUnique_def prisma_transaction_def registerTeam_tx_def team_create_def
  user_create_def leader_account_def member_row_def mentor_row_def representative_row_def
  registered_def body_of_def empty_store_def falcons_store_def falcons_def rival_def
  example_hash_def failing_hash_def

subsection \<open>The order of the composition checks\<close>

text \<open>
  C4 as stated fails: the program does not finish one rule before it starts the next.
  In the roster below the School Student without a school standard stands before the
  only Team Leader, who has no IEEE number, and the answer is the one about the school
  standard.
\<close>

theorem registerTeam_validate_counterexample:
  "length roster_student_first = 6
   \<and> count_role TeamLeader roster_student_first = 1
   \<and> role leader_no_number = TeamLeader
   \<and> ieeeNumber leader_no_number = None
   \<and> roster_student_first ! 1 = leader_no_number
   \<and> registerTeam_validate roster_student_first = Some school_standard_missing
   \<and> school_standard_missing \<noteq> leader_not_ieee"
  by (simp add: registerTeam_validate_def count_role_def roster_defs answer_defs)

text \<open>
  C4, amended: the size of the roster is checked first. The members are then visited
  once, in roster order, and the first member who is a Team Leader without a truthy
  IEEE flag and a non-empty IEEE number, or a School Student without a school standard,
  decides the answer: the leader-not-IEEE-member error for the former, the
  school-standard error for the latter. Only when no member is rejected are the counts
  checked, in the order exactly one Team Leader, at least one School Student, at least
  one female member. In particular, for every roster of six with exactly one Team
  Leader, who lacks an IEEE number, and with a school standard on every School Student
  that stands before the leader, the answer is the leader-not-IEEE-member error.
\<close>

theorem registerTeam_validate_order:
  "registerTeam_validate ms =
     (if length ms \<noteq> 6 then Some wrong_roster_size
      else
        (case find member_bad ms of
           Some m \<Rightarrow> Some (if leader_bad m then leader_not_ieee else school_standard_missing)
         | None \<Rightarrow>
             if count_role TeamLeader ms \<noteq> 1 then Some leader_count_invalid
             else if count_role SchoolStudent ms = 0 then Some school_student_count_invalid
             else if count_female ms = 0 then Some no_female_member
             else None))
   \<and> (length ms = 6 \<and> ms = pre @ l # post \<and> count_role TeamLeader ms = 1
        \<and> role l = TeamLeader \<and> \<not> present (ieeeNumber l)
        \<and> (\<forall>m \<in> set pre. \<not> school_bad m)
      \<longrightarrow> registerTeam_validate ms = Some leader_not_ieee)"
proof (intro conjI impI)
  show "registerTeam_validate ms =
     (if length ms \<noteq> 6 then Some wrong_roster_size
      else
        (case find member_bad ms of
           Some m \<Rightarrow> Some (if leader_bad m then leader_not_ieee else school_standard_missing)
         | None \<Rightarrow>
             if count_role TeamLeader ms \<noteq> 1 then Some leader_count_invalid
             else if count_role SchoolStudent ms = 0 then Some school_student_count_invalid
             else if count_female ms = 0 then Some no_female_member
             else None))"
    unfolding registerTeam_validate_char member_answer_def ..
next
  assume a: "length ms = 6 \<and> ms = pre @ l # post \<and> count_role TeamLeader ms = 1
        \<and> role l = TeamLeader \<and> \<not> present (ieeeNumber l)
        \<and> (\<forall>m \<in> set pre. \<not> school_bad m)"
  then have ms: "ms = pre @ l # post" and l: "role l = TeamLeader"
    and cnt: "count_role TeamLeader ms = 1" and len: "length ms = 6"
    and nonum: "\<not> present (ieeeNumber l)" and std: "\<forall>m \<in> set pre. \<not> school_bad m"
    by blast+
  from cnt l have "length (filter (\<lambda>m. role m = TeamLeader) pre) = 0"
    unfolding ms count_role_def by simp
  then have "\<forall>m \<in> set pre. role m \<noteq> TeamLeader"
    by (simp add: filter_empty_conv)
  with len ms l nonum show "registerTeam_validate ms = Some leader_not_ieee"
    using std by (rule leader_first)
qed

theorem registerTeam_validate_order_witness:
  "length (leader_no_number # student_no_standard # others4) = 6
   \<and> count_role TeamLeader (leader_no_number # student_no_standard # others4) = 1
   \<and> role leader_no_number = TeamLeader \<and> \<not> present (ieeeNumber leader_no_number)
   \<and> school_bad student_no_standard
   \<and> registerTeam_validate (leader_no_number # student_no_standard # others4)
       = Some leader_not_ieee
   \<and> find member_bad roster_student_first = Some student_no_standard
   \<and> registerTeam_validate roster_student_first = Some school_standard_missing"
  using registerTeam_validate_order
    [of "leader_no_number # student_no_standard # others4" "[]" leader_no_number
        "student_no_standard # others4"]
    registerTeam_validate_order [of roster_student_first "[]" leader_no_number "[]"]
  by (simp add: count_role_def school_bad_def leader_bad_def member_bad_def roster_defs answer_defs)

subsection \<open>How many School Students\<close>

text \<open>
  C7 as stated fails for the handler of \<^verbatim>\<open>participant.handler.ts\<close>: a roster of six
  with two School Students that satisfies every other rule is accepted.
\<close>

theorem school_student_count_counterexample:
  "length roster_two_students = 6
   \<and> count_role SchoolStudent roster_two_students = 2
   \<and> registerTeam_validate roster_two_students = None"
  by (simp add: registerTeam_validate_def count_role_def roster_defs answer_defs)

text \<open>
  C7, amended: for every roster of six that satisfies all other rules, the handler of
  \<^verbatim>\<open>participant.handler.ts\<close> accepts exactly the rosters with at least one School
  Student and rejects those with none with its school-student-count error; the handler
  with uploads, given a document for every School Student slot, accepts exactly the
  rosters with one School Student and rejects those with none or with two or more with
  its school-student-count error.
\<close>

theorem school_student_count_policy:
  assumes "length ms = 6" "count_role TeamLeader ms = 1" "count_female ms \<noteq> 0"
    and "\<forall>m \<in> set ms. \<not> member_bad m"
  shows "(registerTeam_validate ms = None \<longleftrightarrow> 1 \<le> count_role SchoolStudent ms)
         \<and> (count_role SchoolStudent ms = 0 \<longrightarrow>
              registerTeam_validate ms = Some school_student_count_invalid)
         \<and> ((\<forall>i < length ms. role (ms ! i) = SchoolStudent \<longrightarrow> present (urls i)) \<longrightarrow>
              (registerTeam_upload_validate (Some urls) ms = None
                 \<longleftrightarrow> count_role SchoolStudent ms = 1)
              \<and> (count_role SchoolStudent ms \<noteq> 1 \<longrightarrow>
                   registerTeam_upload_validate (Some urls) ms =
                     Some school_student_count_invalid_upload))"
  using school_count_primary [OF assms] school_count_upload [OF assms, of urls]
  by auto

theorem school_student_count_policy_witness:
  "length roster_two_students = 6 \<and> count_role TeamLeader roster_two_students = 1
   \<and> count_female roster_two_students \<noteq> 0
   \<and> find member_bad roster_two_students = None
   \<and> count_role SchoolStudent roster_two_students = 2
   \<and> registerTeam_validate roster_two_students = None
   \<and> registerTeam_upload_validate (Some all_uploaded) roster_two_students =
       Some school_student_count_invalid_upload
   \<and> count_role SchoolStudent roster_A = 1
   \<and> registerTeam_validate roster_A = None
   \<and> registerTeam_upload_validate (Some all_uploaded) roster_A = None"
proof -
  have two: "length roster_two_students = 6" "count_role TeamLeader roster_two_students = 1"
    "count_female roster_two_students \<noteq> 0" "\<forall>m \<in> set roster_two_students. \<not> member_bad m"
    and one: "length roster_A = 6" "count_role TeamLeader roster_A = 1"
    "count_female roster_A \<noteq> 0" "\<forall>m \<in> set roster_A. \<not> member_bad m"
    by (simp_all add: count_role_def count_female_def member_bad_def leader_bad_def
        school_bad_def roster_defs)
  have n: "count_role SchoolStudent roster_two_students = 2" "count_role SchoolStudent roster_A = 1"
    by (simp_all add: count_role_def roster_defs)
  have pdf: "\<forall>i < length roster_two_students.
               role (roster_two_students ! i) = SchoolStudent \<longrightarrow> present (all_uploaded i)"
    "\<forall>i < length roster_A. role (roster_A ! i) = SchoolStudent \<longrightarrow> present (all_uploaded i)"
    by (simp_all add: all_uploaded_def)
  have none: "find member_bad roster_two_students = None"
    using two(4) by (simp add: find_None_all)
  from school_student_count_policy [OF two, of all_uploaded]
    school_student_count_policy [OF one, of all_uploaded] two n pdf none
  show ?thesis by simp
qed

subsection \<open>The persisted IEEE flag\<close>

text \<open>
  C9: the row written for a member has the IEEE flag set exactly when the submitted
  \<^verbatim>\<open>isIeeeMember\<close> is the string \<^verbatim>\<open>"Yes"\<close>; a successful registration passed the
  composition checks and appended these rows for its members; and a Team Leader
  submitted with the boolean \<^verbatim>\<open>true\<close> and a non-empty IEEE number is not rejected by
  the checks, yet the row written for that leader has the flag false.
\<close>

theorem isIeeeMember_persisted:
  "(tm_isIeeeMember (member_row tid m) \<longleftrightarrow> isIeeeMember m = JString ''Yes'')
   \<and> (registerTeam hp tid uid s body = (sendSuccess d msg st, s') \<longrightarrow>
        registerTeam_validate (members body) = None
        \<and> teamMembers s' = teamMembers s @ map (member_row tid) (members body))
   \<and> (role m = TeamLeader \<and> isIeeeMember m = JBool True \<and> present (ieeeNumber m) \<longrightarrow>
        \<not> member_bad m \<and> \<not> tm_isIeeeMember (member_row tid m))"
proof (intro conjI impI)
  show "tm_isIeeeMember (member_row tid m) \<longleftrightarrow> isIeeeMember m = JString ''Yes''"
    by (simp add: member_row_def)
next
  assume run: "registerTeam hp tid uid s body = (sendSuccess d msg st, s')"
  then have "fst (registerTeam_interleaved hp tid uid (\<lambda>s. s) s body) = sendSuccess d msg st"
    by (simp add: registerTeam_def)
  from registerTeam_success [OF this] run
  show "registerTeam_validate (members body) = None"
    and "teamMembers s' = teamMembers s @ map (member_row tid) (members body)"
    by (auto simp: registerTeam_def registered_def)
next
  assume "role m = TeamLeader \<and> isIeeeMember m = JBool True \<and> present (ieeeNumber m)"
  then show "\<not> member_bad m" and "\<not> tm_isIeeeMember (member_row tid m)"
    by (simp_all add: member_bad_def leader_bad_def school_bad_def member_row_def)
qed

theorem isIeeeMember_persisted_witness:
  "role leader_true = TeamLeader \<and> isIeeeMember leader_true = JBool True
   \<and> present (ieeeNumber leader_true)
   \<and> registerTeam example_hash ''t1'' ''u1'' empty_store (body_of roster_true) =
       (sendSuccess (''t1'', ''Falcons'') ''Team registered successfully'' CREATED,
        registered ''t1'' ''u1'' ''hash of qwert123'' (body_of roster_true) leader_true empty_store)
   \<and> registerTeam_validate roster_true = None
   \<and> teamMembers
        (registered ''t1'' ''u1'' ''hash of qwert123'' (body_of roster_true) leader_true empty_store)
       = map (member_row ''t1'') roster_true
   \<and> hd (map (member_row ''t1'') roster_true) = member_row ''t1'' leader_true
   \<and> \<not> tm_isIeeeMember (member_row ''t1'' leader_true)
   \<and> tm_isIeeeMember (member_row ''t1'' leader_yes)"
proof -
  have l: "role leader_true = TeamLeader \<and> isIeeeMember leader_true = JBool True
             \<and> present (ieeeNumber leader_true)"
    by (simp add: roster_defs)
  have run: "registerTeam example_hash ''t1'' ''u1'' empty_store (body_of roster_true) =
       (sendSuccess (''t1'', ''Falcons'') ''Team registered successfully'' CREATED,
        registered ''t1'' ''u1'' ''hash of qwert123'' (body_of roster_true) leader_true empty_store)"
    by (simp add: register_defs roster_defs answer_defs)
  have hd: "hd (map (member_row ''t1'') roster_true) = member_row ''t1'' leader_true"
    by (simp add: roster_true_def)
  have m: "members (body_of roster_true) = roster_true" "teamMembers empty_store = []"
    by (simp_all add: body_of_def empty_store_def)
  from isIeeeMember_persisted [of "''t1''" leader_true example_hash "''u1''" empty_store
      "body_of roster_true" "(''t1'', ''Falcons'')" "''Team registered successfully''" CREATED
      "registered ''t1'' ''u1'' ''hash of qwert123'' (body_of roster_true) leader_true empty_store"]
    isIeeeMember_persisted [of "''t1''" leader_yes]
    l run hd m
  show ?thesis
    by (simp add: leader_yes_def member_of_def)
qed

subsection \<open>The leader's account\<close>

text \<open>
  C8: a successful registration has exactly one member with the role Team Leader, and
  appends exactly one row to \<^verbatim>\<open>User\<close>: the account with that member's name and email,
  the hash of \<^verbatim>\<open>qwert123\<close>, the role \<^verbatim>\<open>participant\<close> and the id of the team that the
  same registration created and returned.
\<close>

theorem leader_account_created:
  assumes "registerTeam hp tid uid s body = (sendSuccess d msg st, s')"
  shows "\<exists>l h. filter (\<lambda>m. role m = TeamLeader) (members body) = [l]
           \<and> hp ''qwert123'' = Some h
           \<and> users s' = users s @
               [\<lparr>u_id = uid, u_name = fullName l, u_email = email l, u_password = h,
                 u_role = participant, u_teamId = Some tid\<rparr>]
           \<and> d = (tid, teamName body)
           \<and> teams s' = teams s @ [\<lparr>t_id = tid, t_teamName = teamName body, t_theme = theme body\<rparr>]"
proof -
  from assms have "fst (registerTeam_interleaved hp tid uid (\<lambda>s. s) s body) = sendSuccess d msg st"
    by (simp add: registerTeam_def)
  from registerTeam_success [OF this] assms show ?thesis
    by (auto simp: registerTeam_def registered_def leader_account_def)
qed

theorem leader_account_created_witness:
  "registerTeam example_hash ''t1'' ''u1'' empty_store (body_of roster_A) =
       (sendSuccess (''t1'', ''Falcons'') ''Team registered successfully'' CREATED,
        registered ''t1'' ''u1'' ''hash of qwert123'' (body_of roster_A) leader_yes empty_store)
   \<and> users (registered ''t1'' ''u1'' ''hash of qwert123'' (body_of roster_A) leader_yes empty_store)
       = [\<lparr>u_id = ''u1'', u_name = ''Asha'', u_email = ''Asha@example.org'',
           u_password = ''hash of qwert123'', u_role = participant, u_teamId = Some ''t1''\<rparr>]"
proof -
  have run: "registerTeam example_hash ''t1'' ''u1'' empty_store (body_of roster_A) =
       (sendSuccess (''t1'', ''Falcons'') ''Team registered successfully'' CREATED,
        registered ''t1'' ''u1'' ''hash of qwert123'' (body_of roster_A) leader_yes empty_store)"
    by (simp add: register_defs roster_defs answer_defs)
  have "filter (\<lambda>m. role m = TeamLeader) (members (body_of roster_A)) = [leader_yes]"
    "example_hash ''qwert123'' = Some ''hash of qwert123''" "users empty_store = []"
    "fullName leader_yes = ''Asha''" "email leader_yes = ''Asha@example.org''"
    by (simp_all add: body_of_def roster_defs example_hash_def empty_store_def)
  with leader_account_created [OF run] run show ?thesis
    by auto
qed

subsection \<open>All or nothing\<close>

lemma validate_None_length: "registerTeam_validate ms = None \<Longrightarrow> length ms = 6"
  by (simp add: registerTeam_validate_def split: if_splits)

lemma no_team_rows:
  "team_findUnique s nm = None \<Longrightarrow> filter (\<lambda>t. t_teamName t = nm) (teams s) = []"
  by (simp add: team_findUnique_def find_None_all filter_empty_conv)

lemma registerTeam_error_unchanged:
  assumes "is_error (fst (registerTeam hp tid uid s body))"
  shows "snd (registerTeam hp tid uid s body) = s"
  using registerTeam_error_store [of hp tid uid "\<lambda>s. s" s body] assms
  by (auto simp: registerTeam_def)

text \<open>
  C2: a registration that answers with an error leaves the store as it was, so no
  \<^verbatim>\<open>Team\<close> row carries the requested name afterwards when none did before, which is
  the case whenever the transaction was entered; a failure of \<^verbatim>\<open>hashPassword\<close>, which
  runs after the team and its roster were created and before the account is, is such
  an error. A registration that answers with success has appended the team, its six
  members, the mentor, the representative and the leader's account. When other
  requests commit between the lookup and the transaction, a failed registration still
  adds nothing to what they committed.
\<close>

theorem registration_all_or_nothing:
  "(is_error (fst (registerTeam hp tid uid s body)) \<longrightarrow>
      snd (registerTeam hp tid uid s body) = s)
   \<and> (is_error (fst (registerTeam hp tid uid s body))
        \<and> team_findUnique s (teamName body) = None \<longrightarrow>
      filter (\<lambda>t. t_teamName t = teamName body) (teams (snd (registerTeam hp tid uid s body))) = [])
   \<and> (registerTeam_validate (members body) = None
        \<and> team_findUnique s (teamName body) = None \<and> hp ''qwert123'' = None \<longrightarrow>
      is_error (fst (registerTeam hp tid uid s body)))
   \<and> (\<not> is_error (fst (registerTeam hp tid uid s body)) \<longrightarrow>
      (\<exists>l h. filter (\<lambda>m. role m = TeamLeader) (members body) = [l]
         \<and> length (members body) = 6
         \<and> teams (snd (registerTeam hp tid uid s body)) =
             teams s @ [\<lparr>t_id = tid, t_teamName = teamName body, t_theme = theme body\<rparr>]
         \<and> teamMembers (snd (registerTeam hp tid uid s body)) =
             teamMembers s @ map (member_row tid) (members body)
         \<and> facultyMentors (snd (registerTeam hp tid uid s body)) =
             facultyMentors s @ [mentor_row tid (facultyMentor body)]
         \<and> communityRepresentatives (snd (registerTeam hp tid uid s body)) =
             communityRepresentatives s
               @ [representative_row tid (communityRepresentative body)]
         \<and> users (snd (registerTeam hp tid uid s body)) =
             users s @ [leader_account uid tid h l]))
   \<and> (is_error (fst (registerTeam_interleaved hp tid uid others s body)) \<longrightarrow>
      snd (registerTeam_interleaved hp tid uid others s body) = s
      \<or> snd (registerTeam_interleaved hp tid uid others s body) = others s)"
proof (intro conjI impI)
  assume "is_error (fst (registerTeam hp tid uid s body))"
  then show "snd (registerTeam hp tid uid s body) = s"
    by (rule registerTeam_error_unchanged)
next
  assume "is_error (fst (registerTeam hp tid uid s body))
        \<and> team_findUnique s (teamName body) = None"
  then have "snd (registerTeam hp tid uid s body) = s"
    and "filter (\<lambda>t. t_teamName t = teamName body) (teams s) = []"
    by (simp_all add: registerTeam_error_unchanged no_team_rows)
  then show "filter (\<lambda>t. t_teamName t = teamName body)
               (teams (snd (registerTeam hp tid uid s body))) = []"
    by simp
next
  assume "registerTeam_validate (members body) = None
        \<and> team_findUnique s (teamName body) = None \<and> hp ''qwert123'' = None"
  then show "is_error (fst (registerTeam hp tid uid s body))"
    unfolding registerTeam_def by (intro registerTeam_hash_fails) simp_all
next
  assume ok: "\<not> is_error (fst (registerTeam hp tid uid s body))"
  then obtain d msg st where
    "fst (registerTeam_interleaved hp tid uid (\<lambda>s. s) s body) = sendSuccess d msg st"
    by (cases "fst (registerTeam hp tid uid s body)") (simp_all add: registerTeam_def)
  from registerTeam_success [OF this] obtain l h where
    v: "registerTeam_validate (members body) = None"
    and l: "filter (\<lambda>m. role m = TeamLeader) (members body) = [l]"
    and r: "snd (registerTeam hp tid uid s body) = registered tid uid h body l s"
    by (auto simp: registerTeam_def)
  from v have "length (members body) = 6"
    by (rule validate_None_length)
  with l r show "\<exists>l h. filter (\<lambda>m. role m = TeamLeader) (members body) = [l]
         \<and> length (members body) = 6
         \<and> teams (snd (registerTeam hp tid uid s body)) =
             teams s @ [\<lparr>t_id = tid, t_teamName = teamName body, t_theme = theme body\<rparr>]
         \<and> teamMembers (snd (registerTeam hp tid uid s body)) =
             teamMembers s @ map (member_row tid) (members body)
         \<and> facultyMentors (snd (registerTeam hp tid uid s body)) =
             facultyMentors s @ [mentor_row tid (facultyMentor body)]
         \<and> communityRepresentatives (snd (registerTeam hp tid uid s body)) =
             communityRepresentatives s
               @ [representative_row tid (communityRepresentative body)]
         \<and> users (snd (registerTeam hp tid uid s body)) =
             users s @ [leader_account uid tid h l]"
    by (intro exI [of _ l] exI [of _ h]) (simp add: registered_def)
next
  assume "is_error (fst (registerTeam_interleaved hp tid uid others s body))"
  then show "snd (registerTeam_interleaved hp tid uid others s body) = s
      \<or> snd (registerTeam_interleaved hp tid uid others s body) = others s"
    by (rule registerTeam_error_store)
qed

theorem registration_all_or_nothing_witness:
  "registerTeam_validate (members (body_of roster_A)) = None
   \<and> team_findUnique empty_store (teamName (body_of roster_A)) = None
   \<and> failing_hash ''qwert123'' = None
   \<and> is_error (fst (registerTeam failing_hash ''t1'' ''u1'' empty_store (body_of roster_A)))
   \<and> snd (registerTeam failing_hash ''t1'' ''u1'' empty_store (body_of roster_A)) = empty_store
   \<and> filter (\<lambda>t. t_teamName t = ''Falcons'')
        (teams (snd (registerTeam failing_hash ''t1'' ''u1'' empty_store (body_of roster_A)))) = []
   \<and> \<not> is_error (fst (registerTeam example_hash ''t1'' ''u1'' empty_store (body_of roster_A)))
   \<and> length (teamMembers (snd (registerTeam example_hash ''t1'' ''u1'' empty_store (body_of roster_A)))) = 6
   \<and> length (users (snd (registerTeam example_hash ''t1'' ''u1'' empty_store (body_of roster_A)))) = 1"
proof -
  have h: "registerTeam_validate (members (body_of roster_A)) = None"
    "team_findUnique empty_store (teamName (body_of roster_A)) = None"
    "failing_hash ''qwert123'' = None"
    by (simp_all add: register_defs roster_defs answer_defs)
  have ok: "\<not> is_error (fst (registerTeam example_hash ''t1'' ''u1'' empty_store (body_of roster_A)))"
    by (simp add: register_defs roster_defs answer_defs)
  have e: "teamMembers empty_store = []" "users empty_store = []"
    "teamName (body_of roster_A) = ''Falcons''"
    by (simp_all add: empty_store_def body_of_def)
  from registration_all_or_nothing
         [of failing_hash "''t1''" "''u1''" empty_store "body_of roster_A" "\<lambda>s. s"]
    registration_all_or_nothing
         [of example_hash "''t1''" "''u1''" empty_store "body_of roster_A" "\<lambda>s. s"]
    h ok e
  show ?thesis by auto
qed

subsection \<open>A team name that is taken\<close>

text \<open>
  C6 as stated, for every request, fails: the composition checks run before the name is
  looked up, so a request with five members and a taken name is answered with the
  roster-size error.
\<close>

theorem team_name_conflict_counterexample:
  "team_findUnique falcons_store (teamName (body_of roster_five)) = Some falcons
   \<and> registerTeam example_hash ''t1'' ''u1'' falcons_store (body_of roster_five) =
       (sendError ''Team must have exactly 6 members'' BAD_REQUEST, falcons_store)
   \<and> (''Team must have exactly 6 members'', BAD_REQUEST) \<noteq> team_name_taken"
  by (simp add: register_defs roster_defs answer_defs)

text \<open>
  C6, amended: for every registration request that passes the composition checks and
  whose team name is held by an existing team, the registration answers with
  \<^verbatim>\<open>409 Team name already exists\<close> and persists nothing, whether the lookup finds the
  team or, the lookup having found none, the transaction runs on a store in which
  another request has committed the name meanwhile.
\<close>

theorem team_name_conflict:
  assumes "registerTeam_validate (members body) = None"
  shows "(team_findUnique s (teamName body) \<noteq> None \<longrightarrow>
            registerTeam hp tid uid s body =
              (sendError ''Team name already exists'' CONFLICT, s)
            \<and> registerTeam_interleaved hp tid uid others s body =
              (sendError ''Team name already exists'' CONFLICT, s))
         \<and> (team_findUnique s (teamName body) = None
              \<and> team_findUnique (others s) (teamName body) \<noteq> None \<longrightarrow>
            registerTeam_interleaved hp tid uid others s body =
              (sendError ''Team name already exists'' CONFLICT, others s))"
  using assms registerTeam_taken [OF assms] registerTeam_race_lost [OF assms]
  by (auto simp: registerTeam_def)

theorem team_name_conflict_witness:
  "registerTeam_validate (members (body_of roster_A)) = None
   \<and> team_findUnique falcons_store (teamName (body_of roster_A)) \<noteq> None
   \<and> registerTeam example_hash ''t1'' ''u1'' falcons_store (body_of roster_A) =
       (sendError ''Team name already exists'' CONFLICT, falcons_store)
   \<and> team_findUnique empty_store (teamName (body_of roster_A)) = None
   \<and> team_findUnique (rival empty_store) (teamName (body_of roster_A)) \<noteq> None
   \<and> registerTeam_interleaved example_hash ''t1'' ''u1'' rival empty_store (body_of roster_A) =
       (sendError ''Team name already exists'' CONFLICT, rival empty_store)"
proof -
  have v: "registerTeam_validate (members (body_of roster_A)) = None"
    by (simp add: register_defs roster_defs answer_defs)
  have t: "team_findUnique falcons_store (teamName (body_of roster_A)) \<noteq> None"
    "team_findUnique empty_store (teamName (body_of roster_A)) = None"
    "team_findUnique (rival empty_store) (teamName (body_of roster_A)) \<noteq> None"
    by (simp_all add: register_defs)
  from team_name_conflict [OF v, of falcons_store example_hash "''t1''" "''u1''" rival]
    team_name_conflict [OF v, of empty_store example_hash "''t1''" "''u1''" rival] v t
  show ?thesis by simp
qed

end
